theory Spec2Isabelle
  imports Main "HOL-Library.Sublist" "HOL-Library.Multiset"
begin

section \<open>JavaScript string primitives used by the video routes\<close>

text \<open>
  A JavaScript string is modelled as a \<open>string\<close>: one \<open>char\<close> per UTF-16 code unit, for
  code units below 256 (every marker, separator and pattern of the routes is ASCII).
  \<open>String.prototype.includes\<close>: does the needle occur at some position of the text.
\<close>

fun js_includes :: "string \<Rightarrow> string \<Rightarrow> bool" where
  "js_includes [] needle = (needle = [])"
| "js_includes (c # cs) needle = (prefix needle (c # cs) \<or> js_includes cs needle)"

text \<open>
  \<open>String.prototype.replace\<close> with a string pattern: only the leftmost occurrence is
  replaced. (The one replacement text of the routes holds no \<open>$\<close> pattern.)
\<close>

fun js_replace :: "string \<Rightarrow> string \<Rightarrow> string \<Rightarrow> string" where
  "js_replace [] pat rep = (if pat = [] then rep else [])"
| "js_replace (c # cs) pat rep =
     (if prefix pat (c # cs) then rep @ drop (length pat) (c # cs)
      else c # js_replace cs pat rep)"

text \<open>
  \<open>String.prototype.split\<close> with a string separator. \<open>split_on\<close> scans from the left:
  where the separator starts, the current segment is closed and the scan goes on behind the
  separator; elsewhere the character joins the current segment. The result is never empty.
\<close>

fun split_on :: "string \<Rightarrow> string \<Rightarrow> string list" where
  "split_on sep [] = [[]]"
| "split_on sep (c # cs) =
     (if prefix sep (c # cs) then [] # split_on sep (drop (length sep - 1) cs)
      else (case split_on sep cs of
              [] \<Rightarrow> [[c]]
            | seg # segs \<Rightarrow> (c # seg) # segs))"

definition js_split :: "string \<Rightarrow> string \<Rightarrow> string list" where
  "js_split s sep = (if sep = [] then map (\<lambda>c. [c]) s else split_on sep s)"

text \<open>
  \<open>String.prototype.trim\<close> removes white space and line terminators from both ends. Below
  code unit 256 these are TAB, LF, VT, FF, CR, SPACE and NBSP.
\<close>

definition js_whitespace :: "char \<Rightarrow> bool" where
  "js_whitespace c = (of_char c \<in> {9, 10, 11, 12, 13, 32, 160 :: nat})"

definition js_trim :: "string \<Rightarrow> string" where
  "js_trim s = rev (dropWhile js_whitespace (rev (dropWhile js_whitespace s)))"

text \<open>
  Template literals print a number in decimal: \<open>string_of_nat\<close> is \<open>String(n)\<close> for a
  non-negative integer below \<open>10^21\<close> (as \<open>Date.now()\<close> is).
\<close>

definition digit_char :: "nat \<Rightarrow> char" where
  "digit_char d = ''0123456789'' ! d"

function string_of_nat :: "nat \<Rightarrow> string" where
  "string_of_nat n =
     (if n < 10 then [digit_char n] else string_of_nat (n div 10) @ [digit_char (n mod 10)])"
  by pat_completeness auto
termination
  by (relation "measure id") auto

declare string_of_nat.simps [simp del]

text \<open>
  \<open>xs[i]\<close> on an array: \<open>undefined\<close> (here \<open>None\<close>) out of range.
\<close>

definition js_index :: "'a list \<Rightarrow> nat \<Rightarrow> 'a option" where
  "js_index xs i = (if i < length xs then Some (xs ! i) else None)"

text \<open>
  \<open>Array.prototype.pop\<close>: the last element, \<open>undefined\<close> on an empty array.
\<close>

definition js_pop :: "'a list \<Rightarrow> 'a option" where
  "js_pop xs = (if xs = [] then None else Some (last xs))"

section \<open>The two regular expressions of the Google Drive branch\<close>

text \<open>
  \<open>videoUrl.match(/[?&]id=([^&]+)/)\<close>: the leftmost position holding \<open>?\<close> or \<open>&\<close>, then
  \<open>id=\<close>, then at least one character other than \<open>&\<close>. The capture group is greedy and
  nothing follows it, so it is the longest run of such characters. \<open>None\<close> is \<open>null\<close>.
\<close>

fun downloadMatch :: "string \<Rightarrow> string option" where
  "downloadMatch [] = None"
| "downloadMatch (c # cs) =
     (if (c = CHR ''?'' \<or> c = CHR ''&'') \<and> prefix ''id='' cs
         \<and> takeWhile (\<lambda>x. x \<noteq> CHR ''&'') (drop 3 cs) \<noteq> []
      then Some (takeWhile (\<lambda>x. x \<noteq> CHR ''&'') (drop 3 cs))
      else downloadMatch cs)"

text \<open>
  \<open>videoUrl.match(/\/file\/d\/([^/]+)/)\<close>: the leftmost \<open>/file/d/\<close> that is followed by at
  least one character other than \<open>/\<close>; the capture is the longest run of such characters.
\<close>

fun shareMatch :: "string \<Rightarrow> string option" where
  "shareMatch [] = None"
| "shareMatch (c # cs) =
     (if prefix ''/file/d/'' (c # cs)
         \<and> takeWhile (\<lambda>x. x \<noteq> CHR ''/'') (drop 7 cs) \<noteq> []
      then Some (takeWhile (\<lambda>x. x \<noteq> CHR ''/'') (drop 7 cs))
      else shareMatch cs)"

section \<open>The URL classifier\<close>

datatype js_error = TypeError

definition placeholderThumbnail :: string where
  "placeholderThumbnail =
     ''https://images.unsplash.com/photo-1611162617474-5b21e879e113?w=800&h=450&fit=crop&crop=center''"

text \<open>
  The Drive branch of \<open>generateThumbnailUrl\<close>: \<open>fileId\<close> starts as \<open>null\<close>, is set by the
  \<open>id=\<close> match and then overwritten by the \<open>/file/d/\<close> match. Both captures are non-empty,
  so \<open>if (fileId)\<close> holds exactly when one of them matched.
\<close>

definition driveFileId :: "string \<Rightarrow> string option" where
  "driveFileId videoUrl =
     (let fileId = None;
          fileId = (case downloadMatch videoUrl of Some m \<Rightarrow> Some m | None \<Rightarrow> fileId);
          fileId = (case shareMatch videoUrl of Some m \<Rightarrow> Some m | None \<Rightarrow> fileId)
      in fileId)"

text \<open>
  The YouTube branch: \<open>videoId\<close> starts as the empty string. \<open>a.split(m)[1].split(q)[0]\<close>
  throws a TypeError when \<open>a.split(m)\<close> has a single element.
\<close>

definition second_then_first :: "string \<Rightarrow> string \<Rightarrow> string \<Rightarrow> js_error + string" where
  "second_then_first s marker stop =
     (case js_index (js_split s marker) 1 of
        None \<Rightarrow> Inl TypeError
      | Some rest \<Rightarrow>
          (case js_index (js_split rest stop) 0 of
             None \<Rightarrow> Inl TypeError
           | Some v \<Rightarrow> Inr v))"

definition youtubeVideoId :: "string \<Rightarrow> js_error + string" where
  "youtubeVideoId videoUrl =
     (if js_includes videoUrl ''youtube.com/watch?v='' then second_then_first videoUrl ''v='' ''&''
      else if js_includes videoUrl ''youtu.be/'' then second_then_first videoUrl ''youtu.be/'' ''?''
      else Inr [])"

text \<open>
  The Vimeo branch and the default: \<open>videoUrl.split('/').pop().split('?')[0]\<close>.
\<close>

definition vimeoOrDefault :: "string \<Rightarrow> js_error + string" where
  "vimeoOrDefault videoUrl =
     (if js_includes videoUrl ''vimeo.com'' then
        (case js_pop (js_split videoUrl ''/'') of
           None \<Rightarrow> Inl TypeError
         | Some l \<Rightarrow>
             (case js_index (js_split l ''?'') 0 of
                None \<Rightarrow> Inl TypeError
              | Some videoId \<Rightarrow> Inr (''https://vumbnail.com/'' @ videoId @ ''.jpg'')))
      else Inr placeholderThumbnail)"

definition youtubeOrLater :: "string \<Rightarrow> js_error + string" where
  "youtubeOrLater videoUrl =
     (if js_includes videoUrl ''youtube.com'' \<or> js_includes videoUrl ''youtu.be'' then
        (case youtubeVideoId videoUrl of
           Inl e \<Rightarrow> Inl e
         | Inr videoId \<Rightarrow>
             if videoId \<noteq> [] then Inr (''https://img.youtube.com/vi/'' @ videoId @ ''/maxresdefault.jpg'')
             else vimeoOrDefault videoUrl)
      else vimeoOrDefault videoUrl)"

definition generateThumbnailUrl :: "string \<Rightarrow> js_error + string" where
  "generateThumbnailUrl videoUrl =
     (if js_includes videoUrl ''cloudinary.com'' then
        Inr (js_replace videoUrl ''/video/'' ''/video/so_0/'')
      else
        (case (if js_includes videoUrl ''drive.google.com'' then driveFileId videoUrl else None) of
           Some fileId \<Rightarrow> Inr (''https://drive.google.com/thumbnail?id='' @ fileId @ ''&sz=w800-h450'')
         | None \<Rightarrow> youtubeOrLater videoUrl))"

text \<open>
  \<open>extractVideoId\<close>; \<open>Inr None\<close> is the returned \<open>null\<close>.
\<close>

definition extractVideoId :: "string \<Rightarrow> js_error + string option" where
  "extractVideoId videoUrl =
     (if js_includes videoUrl ''cloudinary.com'' then
        (case js_pop (js_split videoUrl ''/'') of
           None \<Rightarrow> Inl TypeError
         | Some filename \<Rightarrow>
             (case js_index (js_split filename ''.'') 0 of
                None \<Rightarrow> Inl TypeError
              | Some v \<Rightarrow> Inr (Some v)))
      else if js_includes videoUrl ''drive.google.com'' then
        (case downloadMatch videoUrl of
           Some m \<Rightarrow> Inr (Some (''drive_'' @ m))
         | None \<Rightarrow>
             (case shareMatch videoUrl of
                Some m \<Rightarrow> Inr (Some (''drive_'' @ m))
              | None \<Rightarrow> Inr None))
      else Inr None)"

section \<open>Data model\<close>

text \<open>
  Object ids are modelled as natural numbers; two references are the same user, or the
  same video, exactly when the numbers are equal (the routes compare them through
  \<open>toString()\<close> and the array methods of the document layer).
\<close>

type_synonym user_id = nat
type_synonym video_id = nat

text \<open>
  A stored video document, field by field as the schema of \<open>models/Video.js\<close> declares it;
  \<open>vid\<close> is the document's \<open>_id\<close>. Times are milliseconds since the epoch.
\<close>

record video =
  vid :: video_id
  title :: string
  description :: "string option"
  cloudinaryId :: string
  videoUrl :: string
  thumbnailUrl :: string
  duration :: nat
  views :: nat
  likes :: "user_id list"
  uploader :: user_id
  tags :: "string list"
  isPrivate :: bool
  createdAt :: nat
  updatedAt :: nat

text \<open>
  The persistent state: the video collection in insertion order, for every user id the
  \<open>videos\<close> array of that user's document (\<open>None\<close>: no such user), the blob store as the
  set of identifiers it holds, the log of delete calls made to it, and the next fresh
  object id.
\<close>

record store =
  videoDocs :: "video list"
  userVideos :: "user_id \<Rightarrow> video_id list option"
  blobs :: "string set"
  destroyCalls :: "string list"
  nextId :: video_id

text \<open>
  What the routes do not decide themselves: whether \<open>new URL(s)\<close> accepts a text, the
  clock \<open>Date.now()\<close>, the case-insensitive regular-expression test of the database, and
  which awaited call of a collaborator throws.
\<close>

datatype awaited =
    FindVideo | SaveVideo | UpdateUser | PopulateUploader | DeleteVideo
  | QueryVideos | CountVideos | DestroyBlob

record environment =
  urlParses :: "string \<Rightarrow> bool"
  dateNow :: nat
  regexTest :: "string \<Rightarrow> string \<Rightarrow> bool"
  throws :: "awaited \<Rightarrow> bool"

text \<open>
  The responses of the routes: status 201 with the record, 400, 403, 404 and 500 with a
  message, and the three bodies sent with status 200.
\<close>

datatype response =
    Created video
  | BadRequest string
  | Forbidden string
  | NotFound string
  | ServerError string
  | OkMessage string
  | OkLiked bool nat
  | OkPage "video list" "nat option" nat

text \<open>
  The fields of a request body; \<open>None\<close> is a field that was not sent.
\<close>

record body =
  b_title :: "string option"
  b_description :: "string option"
  b_tags :: "string option"
  b_videoUrl :: "string option"

record upload_file =
  filename :: string
  path :: string

section \<open>Store operations\<close>

definition findById :: "store \<Rightarrow> video_id \<Rightarrow> video option" where
  "findById st i = find (\<lambda>v. vid v = i) (videoDocs st)"

text \<open>
  \<open>_id\<close> is unique in a collection, so writing back the document with an id, or deleting
  it, touches every element of the list that carries the id.
\<close>

definition replaceDoc :: "video \<Rightarrow> video list \<Rightarrow> video list" where
  "replaceDoc v' docs = map (\<lambda>v. if vid v = vid v' then v' else v) docs"

definition deleteDoc :: "video_id \<Rightarrow> video list \<Rightarrow> video list" where
  "deleteDoc i docs = filter (\<lambda>v. vid v \<noteq> i) docs"

text \<open>
  \<open>User.findByIdAndUpdate(u, { $push: { videos: i } })\<close> and the same with \<open>$pull\<close>; an
  update of a user that does not exist changes nothing.
\<close>

definition pushUserVideo :: "user_id \<Rightarrow> video_id \<Rightarrow> store \<Rightarrow> store" where
  "pushUserVideo u i st =
     (case userVideos st u of
        None \<Rightarrow> st
      | Some vs \<Rightarrow> st\<lparr>userVideos := (userVideos st)(u := Some (vs @ [i]))\<rparr>)"

definition pullUserVideo :: "user_id \<Rightarrow> video_id \<Rightarrow> store \<Rightarrow> store" where
  "pullUserVideo u i st =
     (case userVideos st u of
        None \<Rightarrow> st
      | Some vs \<Rightarrow> st\<lparr>userVideos := (userVideos st)(u := Some (filter (\<lambda>j. j \<noteq> i) vs))\<rparr>)"

text \<open>
  \<open>cloudinary.uploader.destroy(id)\<close> inside its own \<open>try\<close>: the call is made; when it
  throws, the blob stays and the handler goes on.
\<close>

definition destroyBlob :: "environment \<Rightarrow> string \<Rightarrow> store \<Rightarrow> store" where
  "destroyBlob env cid st =
     st\<lparr>destroyCalls := destroyCalls st @ [cid],
        blobs := (if throws env DestroyBlob then blobs st else blobs st - {cid})\<rparr>"

text \<open>
  The validators of the schema, run by \<open>save()\<close> on a new document: \<open>title\<close> is required
  and at most 200 long after its \<open>trim\<close> setter, \<open>description\<close> at most 2000 long, and
  \<open>cloudinaryId\<close>, \<open>videoUrl\<close>, \<open>thumbnailUrl\<close> are required.
\<close>

definition titleAccepted :: "string option \<Rightarrow> bool" where
  "titleAccepted ttl =
     (case ttl of None \<Rightarrow> False | Some t \<Rightarrow> js_trim t \<noteq> [] \<and> length (js_trim t) \<le> 200)"

definition descriptionAccepted :: "string option \<Rightarrow> bool" where
  "descriptionAccepted desc =
     (case desc of None \<Rightarrow> True | Some d \<Rightarrow> length (js_trim d) \<le> 2000)"

definition schemaAccepts ::
  "string option \<Rightarrow> string option \<Rightarrow> string \<Rightarrow> string \<Rightarrow> string \<Rightarrow> bool" where
  "schemaAccepts ttl desc cid url thumb =
     (titleAccepted ttl \<and> descriptionAccepted desc \<and> cid \<noteq> [] \<and> url \<noteq> [] \<and> thumb \<noteq> [])"

text \<open>
  \<open>new Video({...})\<close>: the schema's setters trim \<open>title\<close>, \<open>description\<close> and every tag; the
  defaults fill \<open>views\<close>, \<open>likes\<close>, \<open>isPrivate\<close> and the two times.
\<close>

definition newVideo ::
  "environment \<Rightarrow> video_id \<Rightarrow> user_id \<Rightarrow> string option \<Rightarrow> string option \<Rightarrow> string \<Rightarrow> string
     \<Rightarrow> string \<Rightarrow> string list \<Rightarrow> video" where
  "newVideo env i u ttl desc cid url thumb tgs =
     \<lparr>vid = i,
      title = (case ttl of None \<Rightarrow> [] | Some t \<Rightarrow> js_trim t),
      description = map_option js_trim desc,
      cloudinaryId = cid,
      videoUrl = url,
      thumbnailUrl = thumb,
      duration = 0,
      views = 0,
      likes = [],
      uploader = u,
      tags = map js_trim tgs,
      isPrivate = False,
      createdAt = dateNow env,
      updatedAt = dateNow env\<rparr>"

section \<open>The upload routes\<close>

text \<open>
  \<open>tags ? tags.split(',').map(tag => tag.trim()) : []\<close>, written the same in both upload
  routes; an absent and an empty tag text are both falsy.
\<close>

definition parseTags :: "string option \<Rightarrow> string list" where
  "parseTags t =
     (case t of
        None \<Rightarrow> []
      | Some s \<Rightarrow> if s = [] then [] else map js_trim (js_split s '',''))"

text \<open>
  The tag set as the specification words it, for comparison with \<open>parseTags\<close>: the
  segments between the commas, each trimmed, the empty ones left out; no tag when no tag
  text is sent.
\<close>

definition claimedTags :: "string option \<Rightarrow> string list" where
  "claimedTags t =
     (case t of
        None \<Rightarrow> []
      | Some s \<Rightarrow> filter (\<lambda>x. x \<noteq> []) (map js_trim (js_split s '','')))"

text \<open>
  The statements both upload routes end with: build the document, \<open>save()\<close> it, push its
  id to the owner's \<open>videos\<close>, populate the owner for display and answer 201. An exception
  at any of them is answered by the route's \<open>catch\<close> with status 500; writes made before
  it stay.
\<close>

definition saveAndRespond ::
  "environment \<Rightarrow> store \<Rightarrow> user_id \<Rightarrow> body \<Rightarrow> string \<Rightarrow> string \<Rightarrow> string \<Rightarrow> string
     \<Rightarrow> response \<times> store" where
  "saveAndRespond env st u b cid url thumb msg =
     (let v = newVideo env (nextId st) u (b_title b) (b_description b) cid url thumb
                (parseTags (b_tags b))
      in if \<not> schemaAccepts (b_title b) (b_description b) cid url thumb \<or> throws env SaveVideo
         then (ServerError msg, st)
         else
           (let st1 = st\<lparr>videoDocs := videoDocs st @ [v], nextId := Suc (nextId st)\<rparr>
            in if throws env UpdateUser then (ServerError msg, st1)
               else
                 (let st2 = pushUserVideo u (vid v) st1
                  in if throws env PopulateUploader then (ServerError msg, st2)
                     else (Created v, st2))))"

text \<open>
  \<open>POST /upload\<close>. The upload middleware has already sent the file to the blob store;
  \<open>req.file\<close> carries the identifier and the URL it answered (\<open>None\<close>: no file attached).
\<close>

definition uploadFile ::
  "environment \<Rightarrow> store \<Rightarrow> user_id \<Rightarrow> upload_file option \<Rightarrow> body \<Rightarrow> response \<times> store" where
  "uploadFile env st u file b =
     (case file of
        None \<Rightarrow> (BadRequest ''No video file provided'', st)
      | Some f \<Rightarrow>
          (case generateThumbnailUrl (path f) of
             Inl e \<Rightarrow> (ServerError ''Error uploading video'', st)
           | Inr thumb \<Rightarrow>
               saveAndRespond env st u b (filename f) (path f) thumb
                 ''Error uploading video''))"

text \<open>
  \<open>extractVideoId(videoUrl) || `link_${Date.now()}`\<close>: \<open>null\<close> and the empty string are
  both falsy.
\<close>

definition linkIdentifier :: "environment \<Rightarrow> string option \<Rightarrow> string" where
  "linkIdentifier env extracted =
     (case extracted of
        None \<Rightarrow> ''link_'' @ string_of_nat (dateNow env)
      | Some i \<Rightarrow> if i = [] then ''link_'' @ string_of_nat (dateNow env) else i)"

text \<open>
  \<open>POST /upload-link\<close>.
\<close>

definition uploadLink ::
  "environment \<Rightarrow> store \<Rightarrow> user_id \<Rightarrow> body \<Rightarrow> response \<times> store" where
  "uploadLink env st u b =
     (case b_videoUrl b of
        None \<Rightarrow> (BadRequest ''Video URL is required'', st)
      | Some url \<Rightarrow>
          if url = [] then (BadRequest ''Video URL is required'', st)
          else if \<not> urlParses env url then (BadRequest ''Invalid video URL format'', st)
          else
            (case generateThumbnailUrl url of
               Inl e \<Rightarrow> (ServerError ''Error adding video link'', st)
             | Inr thumb \<Rightarrow>
                 (case extractVideoId url of
                    Inl e \<Rightarrow> (ServerError ''Error adding video link'', st)
                  | Inr extracted \<Rightarrow>
                      saveAndRespond env st u b (linkIdentifier env extracted) url thumb
                        ''Error adding video link'')))"

text \<open>
  The record carried by a 201 response, and the conditions under which the three awaited
  calls behind \<open>new Video\<close> go through: the schema accepts the title and the description of
  the body, and none of the calls throws.
\<close>

definition createdRecord :: "response \<Rightarrow> video option" where
  "createdRecord r = (case r of Created v \<Rightarrow> Some v | _ \<Rightarrow> None)"

definition saveSucceeds :: "environment \<Rightarrow> body \<Rightarrow> bool" where
  "saveSucceeds env b =
     (titleAccepted (b_title b) \<and> descriptionAccepted (b_description b)
      \<and> \<not> throws env SaveVideo \<and> \<not> throws env UpdateUser \<and> \<not> throws env PopulateUploader)"

section \<open>Listing, deleting and liking\<close>

text \<open>
  The filter of \<open>GET /\<close>: public videos, and for a non-empty search text a match in the
  title, the description or one of the tags.
\<close>

definition listQuery :: "environment \<Rightarrow> string option \<Rightarrow> video \<Rightarrow> bool" where
  "listQuery env search v =
     (\<not> isPrivate v \<and>
      (case search of
         None \<Rightarrow> True
       | Some s \<Rightarrow>
           s = [] \<or> regexTest env s (title v)
           \<or> (case description v of None \<Rightarrow> False | Some d \<Rightarrow> regexTest env s d)
           \<or> list_ex (regexTest env s) (tags v)))"

text \<open>
  The documents that \<open>Video.find(query)\<close> selects and \<open>Video.countDocuments(query)\<close>
  counts.
\<close>

definition matchingVideos :: "environment \<Rightarrow> store \<Rightarrow> string option \<Rightarrow> video list" where
  "matchingVideos env st search = filter (listQuery env search) (videoDocs st)"

text \<open>
  \<open>.sort({ createdAt: -1 })\<close>: newest first; documents of equal time keep their order.
\<close>

definition newestFirst :: "video list \<Rightarrow> video list" where
  "newestFirst docs = sort_key (\<lambda>v. - int (createdAt v)) docs"

text \<open>
  \<open>GET /\<close> with \<open>page\<close> and \<open>limit\<close> as the numbers their query texts denote (defaults 1
  and 12), here non-negative integers. The database skips \<open>(page - 1) * limit\<close> documents
  and refuses a negative skip; a limit of 0 is no limit, and \<open>Math.ceil(total / 0)\<close> is
  not a finite number (\<open>None\<close>).
\<close>

definition listVideos ::
  "environment \<Rightarrow> store \<Rightarrow> nat option \<Rightarrow> nat option \<Rightarrow> string option \<Rightarrow> response \<times> store" where
  "listVideos env st page limit search =
     (let page = (case page of None \<Rightarrow> 1 | Some p \<Rightarrow> p);
          limit = (case limit of None \<Rightarrow> 12 | Some l \<Rightarrow> l);
          matching = matchingVideos env st search
      in if throws env QueryVideos \<or> (page = 0 \<and> limit \<noteq> 0) then
           (ServerError ''Error fetching videos'', st)
         else
           (let skipped = drop ((page - 1) * limit) (newestFirst matching);
                found = (if limit = 0 then skipped else take limit skipped);
                total = length matching
            in if throws env CountVideos then (ServerError ''Error fetching videos'', st)
               else (OkPage found
                       (if limit = 0 then None else Some ((total + limit - 1) div limit))
                       page, st)))"

text \<open>
  \<open>DELETE /:id\<close>.
\<close>

definition deleteVideo ::
  "environment \<Rightarrow> store \<Rightarrow> user_id \<Rightarrow> video_id \<Rightarrow> response \<times> store" where
  "deleteVideo env st u i =
     (if throws env FindVideo then (ServerError ''Error deleting video'', st)
      else
        (case findById st i of
           None \<Rightarrow> (NotFound ''Video not found'', st)
         | Some v \<Rightarrow>
             if uploader v \<noteq> u then (Forbidden ''Not authorized to delete this video'', st)
             else
               (let st1 = (if js_includes (videoUrl v) ''cloudinary.com''
                           then destroyBlob env (cloudinaryId v) st else st)
                in if throws env DeleteVideo then (ServerError ''Error deleting video'', st1)
                   else
                     (let st2 = st1\<lparr>videoDocs := deleteDoc i (videoDocs st1)\<rparr>
                      in if throws env UpdateUser then (ServerError ''Error deleting video'', st2)
                         else (OkMessage ''Video deleted successfully'', pullUserVideo u i st2)))))"

text \<open>
  \<open>POST /:id/like\<close>. \<open>save()\<close> runs the schema's hook, which sets \<open>updatedAt\<close>.
\<close>

definition likeVideo ::
  "environment \<Rightarrow> store \<Rightarrow> user_id \<Rightarrow> video_id \<Rightarrow> response \<times> store" where
  "likeVideo env st u i =
     (if throws env FindVideo then (ServerError ''Error liking video'', st)
      else
        (case findById st i of
           None \<Rightarrow> (NotFound ''Video not found'', st)
         | Some v \<Rightarrow>
             (let userLiked = (u \<in> set (likes v));
                  likes' = (if userLiked then filter (\<lambda>j. j \<noteq> u) (likes v) else likes v @ [u]);
                  v' = v\<lparr>likes := likes', updatedAt := dateNow env\<rparr>
              in if throws env SaveVideo then (ServerError ''Error liking video'', st)
                 else (OkLiked (\<not> userLiked) (length likes'),
                       st\<lparr>videoDocs := replaceDoc v' (videoDocs st)\<rparr>))))"

text \<open>
  \<open>req.params.id\<close> is a text. \<open>findById\<close> first casts it to an object id, which the
  document layer does for a text of 24 hexadecimal digits; for any other text the cast
  throws a CastError inside the route's \<open>try\<close>, and its \<open>catch\<close> answers status 500.
  The object id is modelled by the number the digits denote.
\<close>

definition hexDigit :: "char \<Rightarrow> nat option" where
  "hexDigit c =
     (let n = (of_char c :: nat)
      in if 48 \<le> n \<and> n \<le> 57 then Some (n - 48)
         else if 97 \<le> n \<and> n \<le> 102 then Some (n - 87)
         else if 65 \<le> n \<and> n \<le> 70 then Some (n - 55)
         else None)"

fun hexValue :: "string \<Rightarrow> nat \<Rightarrow> nat option" where
  "hexValue [] acc = Some acc"
| "hexValue (c # cs) acc =
     (case hexDigit c of None \<Rightarrow> None | Some d \<Rightarrow> hexValue cs (16 * acc + d))"

definition castObjectId :: "string \<Rightarrow> video_id option" where
  "castObjectId idParam = (if length idParam = 24 then hexValue idParam 0 else None)"

text \<open>
  \<open>DELETE /:id\<close> and \<open>POST /:id/like\<close> as they receive the id: the cast, then the route
  on the object id.
\<close>

definition deleteVideoRequest ::
  "environment \<Rightarrow> store \<Rightarrow> user_id \<Rightarrow> string \<Rightarrow> response \<times> store" where
  "deleteVideoRequest env st u idParam =
     (case castObjectId idParam of
        None \<Rightarrow> (ServerError ''Error deleting video'', st)
      | Some i \<Rightarrow> deleteVideo env st u i)"

definition likeVideoRequest ::
  "environment \<Rightarrow> store \<Rightarrow> user_id \<Rightarrow> string \<Rightarrow> response \<times> store" where
  "likeVideoRequest env st u idParam =
     (case castObjectId idParam of
        None \<Rightarrow> (ServerError ''Error liking video'', st)
      | Some i \<Rightarrow> likeVideo env st u i)"

section \<open>Example inputs\<close>

text \<open>
  One stored video, hosted by the blob store, owned by user 3 and liked by user 4; a
  collaborator environment in which nothing throws, and one in which only the blob store's
  delete call throws.
\<close>

definition exampleVideo :: video where
  "exampleVideo =
     \<lparr>vid = 7, title = ''Clip'', description = None, cloudinaryId = ''clip'',
      videoUrl = ''https://res.cloudinary.com/demo/video/upload/clip.mp4'',
      thumbnailUrl = ''https://res.cloudinary.com/demo/video/so_0/upload/clip.mp4'',
      duration = 0, views = 0, likes = [4], uploader = 3, tags = [], isPrivate = False,
      createdAt = 100, updatedAt = 100\<rparr>"

definition exampleStore :: store where
  "exampleStore =
     \<lparr>videoDocs = [exampleVideo], userVideos = (\<lambda>_. None)(3 := Some [7]),
      blobs = {''clip''}, destroyCalls = [], nextId = 8\<rparr>"

definition exampleEnv :: environment where
  "exampleEnv =
     \<lparr>urlParses = (\<lambda>_. True), dateNow = 1700000000123,
      regexTest = (\<lambda>pat txt. js_includes txt pat), throws = (\<lambda>_. False)\<rparr>"

definition blobStoreDownEnv :: environment where
  "blobStoreDownEnv = exampleEnv\<lparr>throws := (\<lambda>c. c = DestroyBlob)\<rparr>"

text \<open>
  Request bodies with a title the schema accepts and the tag text \<open>a,,b\<close>: one for a
  \<open>youtu.be\<close> link, one for a Drive URL with neither pattern, one for a YouTube watch page;
  an uploaded file as the blob store answers it; and the records the two upload routes
  build from them.
\<close>

definition linkBody :: body where
  "linkBody =
     \<lparr>b_title = Some ''Talk'', b_description = None, b_tags = Some ''a,,b'',
      b_videoUrl = Some ''https://youtu.be/abc123?t=5''\<rparr>"

definition driveOpenBody :: body where
  "driveOpenBody = linkBody\<lparr>b_videoUrl := Some ''https://drive.google.com/open''\<rparr>"

definition watchBody :: body where
  "watchBody = linkBody\<lparr>b_videoUrl := Some ''https://www.youtube.com/watch?v=dQw4w9WgXcQ&t=1''\<rparr>"

definition exampleFile :: upload_file where
  "exampleFile =
     \<lparr>filename = ''video-sharing-platform/talk'',
      path = ''https://res.cloudinary.com/demo/video/upload/v1/video-sharing-platform/talk.mp4''\<rparr>"

definition storedLinkVideo :: video where
  "storedLinkVideo =
     newVideo exampleEnv (nextId exampleStore) 3 (b_title linkBody) (b_description linkBody)
       (linkIdentifier exampleEnv None) ''https://youtu.be/abc123?t=5''
       ''https://img.youtube.com/vi/abc123/maxresdefault.jpg'' (parseTags (b_tags linkBody))"

definition storedFileVideo :: video where
  "storedFileVideo =
     newVideo exampleEnv (nextId exampleStore) 3 (b_title linkBody) (b_description linkBody)
       (filename exampleFile) (path exampleFile)
       ''https://res.cloudinary.com/demo/video/so_0/upload/v1/video-sharing-platform/talk.mp4''
       (parseTags (b_tags linkBody))"

text \<open>
  A catalogue of three public videos and a private one, not in order of creation.
\<close>

definition catalogVideo :: "video_id \<Rightarrow> nat \<Rightarrow> bool \<Rightarrow> video" where
  "catalogVideo i t p = exampleVideo\<lparr>vid := i, isPrivate := p, createdAt := t, updatedAt := t\<rparr>"

definition catalogStore :: store where
  "catalogStore =
     exampleStore\<lparr>videoDocs := [catalogVideo 11 200 False, catalogVideo 12 500 True,
                                catalogVideo 13 400 False, catalogVideo 14 300 False]\<rparr>"

section \<open>Facts about the string primitives\<close>

lemma js_includes_sublist: "js_includes s n \<longleftrightarrow> sublist n s"
  by (induction s) (simp_all add: sublist_Cons_right)

lemma js_includes_needle_suffix: "js_includes s (a @ b) \<Longrightarrow> js_includes s b"
  unfolding js_includes_sublist sublist_def by (metis append.assoc)

lemma prefix_includes: "prefix n s \<Longrightarrow> js_includes s n"
  by (cases s) auto

lemma not_includes_Cons:
  assumes "\<not> js_includes (c # cs) n"
  shows "\<not> prefix n (c # cs)" and "\<not> prefix n cs" and "\<not> js_includes cs n"
proof -
  show "\<not> prefix n (c # cs)" using assms prefix_includes by blast
  show n: "\<not> js_includes cs n" using assms by simp
  show "\<not> prefix n cs" using n prefix_includes by blast
qed

lemma js_includes_nonempty: "js_includes s n \<Longrightarrow> n \<noteq> [] \<Longrightarrow> s \<noteq> []"
  by (cases s) auto

lemma prefix_of_append: "length k \<le> length xs \<Longrightarrow> prefix k (xs @ ys) = prefix k xs"
  by (auto simp: prefix_append)

lemma split_on_nonempty: "split_on sep s \<noteq> []"
  by (induction sep s rule: split_on.induct) (auto split: list.splits)

lemma split_on_two: "js_includes s sep \<Longrightarrow> sep \<noteq> [] \<Longrightarrow> 2 \<le> length (split_on sep s)"
proof (induction sep s rule: split_on.induct)
  case (1 sep)
  then show ?case by simp
next
  case (2 sep c cs)
  show ?case
  proof (cases "prefix sep (c # cs)")
    case True
    have "split_on sep (drop (length sep - 1) cs) \<noteq> []" by (rule split_on_nonempty)
    then have "1 \<le> length (split_on sep (drop (length sep - 1) cs))"
      by (cases "split_on sep (drop (length sep - 1) cs)") simp_all
    with True show ?thesis by simp
  next
    case False
    with "2.prems" have "js_includes cs sep" by simp
    with "2.IH"(2) False "2.prems" have "2 \<le> length (split_on sep cs)" by simp
    with False show ?thesis by (auto split: list.splits)
  qed
qed

lemma js_index_split_first: "sep \<noteq> [] \<Longrightarrow> \<exists>x. js_index (js_split s sep) 0 = Some x"
  using split_on_nonempty [of sep s] by (simp add: js_index_def js_split_def)

lemma js_pop_split: "sep \<noteq> [] \<Longrightarrow> \<exists>x. js_pop (js_split s sep) = Some x"
  using split_on_nonempty [of sep s] by (simp add: js_pop_def js_split_def)

lemma js_index_split_second:
  "js_includes s sep \<Longrightarrow> sep \<noteq> [] \<Longrightarrow> \<exists>x. js_index (js_split s sep) 1 = Some x"
  using split_on_two [of s sep] by (simp add: js_index_def js_split_def)

lemma js_replace_nonempty: "s \<noteq> [] \<Longrightarrow> rep \<noteq> [] \<Longrightarrow> js_replace s pat rep \<noteq> []"
  by (cases s) auto

lemma js_trim_idem: "js_trim (js_trim s) = js_trim s"
proof -
  let ?t = "dropWhile js_whitespace s"
  let ?u = "rev (dropWhile js_whitespace (rev ?t))"
  have front: "dropWhile js_whitespace ?u = ?u"
  proof (cases "?u = []")
    case True
    show ?thesis by (simp only: True dropWhile.simps)
  next
    case False
    have t: "?t \<noteq> []"
    proof
      assume "?t = []"
      then have "?u = []" by (simp only: rev.simps dropWhile.simps)
      with False show False ..
    qed
    have "rev ?t = takeWhile js_whitespace (rev ?t) @ dropWhile js_whitespace (rev ?t)" by simp
    then have "?t = ?u @ rev (takeWhile js_whitespace (rev ?t))"
      by (metis rev_append rev_rev_ident)
    then have "hd ?t = hd ?u" using False by (metis hd_append2)
    moreover have "\<not> js_whitespace (hd ?t)" using t by (rule hd_dropWhile)
    ultimately have "\<not> js_whitespace (hd ?u)" by simp
    then show ?thesis using False by (cases ?u) simp_all
  qed
  show ?thesis unfolding js_trim_def by (simp add: front)
qed

section \<open>The classifier returns a value for every URL\<close>

text \<open>
  The index expressions of the YouTube, Vimeo and blob-store branches are guarded by the
  \<open>includes\<close> tests before them: no URL makes \<open>generateThumbnailUrl\<close> or
  \<open>extractVideoId\<close> throw, and every thumbnail is a non-empty text.
\<close>

lemma second_then_first_total:
  assumes "js_includes s marker" "marker \<noteq> []" "stop \<noteq> []"
  shows "\<exists>x. second_then_first s marker stop = Inr x"
proof -
  obtain r where r: "js_index (js_split s marker) 1 = Some r"
    using js_index_split_second [OF assms(1,2)] by blast
  obtain x where x: "js_index (js_split r stop) 0 = Some x"
    using js_index_split_first [OF assms(3)] by blast
  show ?thesis using r x by (simp add: second_then_first_def)
qed

lemma youtubeVideoId_total: "\<exists>x. youtubeVideoId url = Inr x"
proof -
  have a: "js_includes url ''youtube.com/watch?v='' \<Longrightarrow> js_includes url ''v=''"
    using js_includes_needle_suffix [of url "''youtube.com/watch?''" "''v=''"] by simp
  show ?thesis
    using second_then_first_total [of url "''v=''" "''&''"]
      second_then_first_total [of url "''youtu.be/''" "''?''"] a
    by (auto simp: youtubeVideoId_def)
qed

lemma vimeoOrDefault_total: "\<exists>x. vimeoOrDefault url = Inr x \<and> x \<noteq> []"
proof -
  obtain l where l: "js_pop (js_split url ''/'') = Some l"
    using js_pop_split [of "''/''" url] by auto
  obtain x where x: "js_index (js_split l ''?'') 0 = Some x"
    using js_index_split_first [of "''?''" l] by auto
  show ?thesis by (simp add: vimeoOrDefault_def l x placeholderThumbnail_def)
qed

lemma youtubeOrLater_total: "\<exists>x. youtubeOrLater url = Inr x \<and> x \<noteq> []"
proof -
  obtain y where y: "youtubeVideoId url = Inr y" using youtubeVideoId_total by blast
  show ?thesis using vimeoOrDefault_total [of url] by (auto simp: youtubeOrLater_def y)
qed

lemma generateThumbnailUrl_total: "\<exists>t. generateThumbnailUrl url = Inr t \<and> t \<noteq> []"
proof (cases "js_includes url ''cloudinary.com''")
  case True
  then have "url \<noteq> []" using js_includes_nonempty by fastforce
  then show ?thesis using True by (simp add: generateThumbnailUrl_def js_replace_nonempty)
next
  case False
  then show ?thesis using youtubeOrLater_total [of url]
    by (auto simp: generateThumbnailUrl_def split: option.splits)
qed

lemma extractVideoId_total: "\<exists>e. extractVideoId url = Inr e"
proof -
  obtain l where l: "js_pop (js_split url ''/'') = Some l"
    using js_pop_split [of "''/''" url] by auto
  obtain x where x: "js_index (js_split l ''.'') 0 = Some x"
    using js_index_split_first [of "''.''" l] by auto
  show ?thesis by (simp add: extractVideoId_def l x split: option.splits)
qed

lemma unrecognized_thumbnail:
  assumes "\<not> js_includes url ''cloudinary.com''"
    and "js_includes url ''drive.google.com'' \<longrightarrow> downloadMatch url = None \<and> shareMatch url = None"
    and "\<not> js_includes url ''youtube.com/watch?v=''" and "\<not> js_includes url ''youtu.be/''"
    and "\<not> js_includes url ''vimeo.com''"
  shows "generateThumbnailUrl url = Inr placeholderThumbnail"
proof -
  have y: "youtubeVideoId url = Inr []" using assms(3,4) by (simp add: youtubeVideoId_def)
  have v: "vimeoOrDefault url = Inr placeholderThumbnail"
    using assms(5) by (simp add: vimeoOrDefault_def)
  have l: "youtubeOrLater url = Inr placeholderThumbnail"
    by (simp add: youtubeOrLater_def y v)
  have d: "(if js_includes url ''drive.google.com'' then driveFileId url else None) = None"
    using assms(2) by (simp add: driveFileId_def)
  show ?thesis using assms(1) by (simp add: generateThumbnailUrl_def d l)
qed

lemma unextracted_identifier:
  assumes "\<not> js_includes url ''cloudinary.com''"
    and "js_includes url ''drive.google.com'' \<longrightarrow> downloadMatch url = None \<and> shareMatch url = None"
  shows "extractVideoId url = Inr None"
  using assms by (simp add: extractVideoId_def)

lemma no_match_unless:
  "\<not> (A \<and> (B \<noteq> None \<or> C \<noteq> None)) \<Longrightarrow> A \<longrightarrow> B = None \<and> C = None"
  by blast

lemma identifier_only_blob_or_drive:
  assumes "extractVideoId w = Inr (Some i)"
  shows "js_includes w ''cloudinary.com''
         \<or> (js_includes w ''drive.google.com''
             \<and> (downloadMatch w \<noteq> None \<or> shareMatch w \<noteq> None))"
proof (cases "js_includes w ''cloudinary.com''")
  case True
  then show ?thesis by (rule disjI1)
next
  case c: False
  show ?thesis
  proof (cases "js_includes w ''drive.google.com''
             \<and> (downloadMatch w \<noteq> None \<or> shareMatch w \<noteq> None)")
    case True
    then show ?thesis by (rule disjI2)
  next
    case d: False
    have "extractVideoId w = Inr None"
      by (rule unextracted_identifier [OF c no_match_unless [OF d]])
    with assms have False by simp
    then show ?thesis ..
  qed
qed

section \<open>Facts about the two Drive patterns\<close>

lemma downloadMatch_absent: "\<not> js_includes s ''id='' \<Longrightarrow> downloadMatch s = None"
proof (induction s)
  case Nil
  show ?case by simp
next
  case (Cons c cs)
  note n = not_includes_Cons [OF Cons.prems]
  have c: "\<not> ((c = CHR ''?'' \<or> c = CHR ''&'') \<and> prefix ''id='' cs
         \<and> takeWhile (\<lambda>x. x \<noteq> CHR ''&'') (drop 3 cs) \<noteq> [])"
  proof
    assume "(c = CHR ''?'' \<or> c = CHR ''&'') \<and> prefix ''id='' cs
         \<and> takeWhile (\<lambda>x. x \<noteq> CHR ''&'') (drop 3 cs) \<noteq> []"
    then have "prefix ''id='' cs" by (rule conjunct1 [OF conjunct2])
    with n(2) show False ..
  qed
  have "downloadMatch (c # cs) = downloadMatch cs"
    by (rule trans [OF downloadMatch.simps(2) if_not_P [OF c]])
  then show ?case using Cons.IH [OF n(3)] by (rule trans)
qed

lemma shareMatch_absent: "\<not> js_includes s ''/file/d/'' \<Longrightarrow> shareMatch s = None"
proof (induction s)
  case Nil
  show ?case by simp
next
  case (Cons c cs)
  note n = not_includes_Cons [OF Cons.prems]
  have c: "\<not> (prefix ''/file/d/'' (c # cs)
         \<and> takeWhile (\<lambda>x. x \<noteq> CHR ''/'') (drop 7 cs) \<noteq> [])"
  proof
    assume "prefix ''/file/d/'' (c # cs)
         \<and> takeWhile (\<lambda>x. x \<noteq> CHR ''/'') (drop 7 cs) \<noteq> []"
    then have "prefix ''/file/d/'' (c # cs)" by (rule conjunct1)
    with n(1) show False ..
  qed
  have "shareMatch (c # cs) = shareMatch cs"
    by (rule trans [OF shareMatch.simps(2) if_not_P [OF c]])
  then show ?case using Cons.IH [OF n(3)] by (rule trans)
qed

lemma share_here_append:
  assumes "9 \<le> length xs" "length k = 8"
  shows "(prefix k (xs @ ys) \<and> takeWhile P (drop 8 (xs @ ys)) \<noteq> [])
         \<longleftrightarrow> (prefix k xs \<and> takeWhile P (drop 8 xs) \<noteq> [])"
proof -
  have p: "prefix k (xs @ ys) \<longleftrightarrow> prefix k xs"
    using assms by (auto simp: prefix_append)
  have d: "drop 8 (xs @ ys) = drop 8 xs @ ys" using assms by simp
  have n: "drop 8 xs \<noteq> []" using assms by simp
  have h: "takeWhile P (drop 8 xs @ ys) = [] \<longleftrightarrow> takeWhile P (drop 8 xs) = []"
    using n by (simp add: takeWhile_eq_Nil_iff)
  show ?thesis by (simp only: p d h)
qed

lemma shareMatch_Cons:
  "shareMatch (c # cs) =
     (if prefix ''/file/d/'' (c # cs) \<and> takeWhile (\<lambda>x. x \<noteq> CHR ''/'') (drop 8 (c # cs)) \<noteq> []
      then Some (takeWhile (\<lambda>x. x \<noteq> CHR ''/'') (drop 8 (c # cs)))
      else shareMatch cs)"
proof -
  have d: "drop 8 (c # cs) = drop 7 cs" by simp
  show ?thesis by (simp only: d shareMatch.simps)
qed

lemma shareMatch_skip:
  "shareMatch (pre @ ''/file/d/'') = None
   \<Longrightarrow> shareMatch (pre @ ''/file/d/'' @ rest) = shareMatch (''/file/d/'' @ rest)"
proof (induction pre)
  case Nil
  then show ?case by simp
next
  case (Cons c pre)
  let ?k = "''/file/d/''"
  let ?xs = "c # (pre @ ?k)"
  let ?P = "\<lambda>x. x \<noteq> CHR ''/''"
  have len: "9 \<le> length ?xs" by simp
  have none: "shareMatch ?xs = None" using Cons.prems by simp
  have here: "\<not> (prefix ?k ?xs \<and> takeWhile ?P (drop 8 ?xs) \<noteq> [])"
  proof
    assume c: "prefix ?k ?xs \<and> takeWhile ?P (drop 8 ?xs) \<noteq> []"
    have "shareMatch ?xs = Some (takeWhile ?P (drop 8 ?xs))"
      by (rule trans [OF shareMatch_Cons if_P [OF c]])
    with none show False by simp
  qed
  have later: "shareMatch (pre @ ?k) = None"
    using trans [OF shareMatch_Cons if_not_P [OF here]] none by simp
  have app: "?xs @ rest = c # ((pre @ ?k) @ rest)" by simp
  have "\<not> (prefix ?k (?xs @ rest) \<and> takeWhile ?P (drop 8 (?xs @ rest)) \<noteq> [])"
    using here share_here_append [OF len, of ?k rest ?P] by simp
  then have far: "\<not> (prefix ?k (c # ((pre @ ?k) @ rest))
                     \<and> takeWhile ?P (drop 8 (c # ((pre @ ?k) @ rest))) \<noteq> [])"
    unfolding app .
  have "shareMatch (c # ((pre @ ?k) @ rest)) = shareMatch ((pre @ ?k) @ rest)"
    by (rule trans [OF shareMatch_Cons if_not_P [OF far]])
  then show ?case using Cons.IH [OF later] by simp
qed

lemma shareMatch_segment:
  assumes "fid \<noteq> []" "CHR ''/'' \<notin> set fid" "shareMatch (pre @ ''/file/d/'') = None"
  shows "shareMatch (pre @ ''/file/d/'' @ fid @ ''/'' @ post) = Some fid"
proof -
  have a: "\<forall>x\<in>set fid. x \<noteq> CHR ''/''" using assms(2) by blast
  have t: "takeWhile (\<lambda>x. x \<noteq> CHR ''/'') (fid @ CHR ''/'' # post) = fid"
    using a takeWhile_tail [of "\<lambda>x. x \<noteq> CHR ''/''" "CHR ''/''" fid post] by simp
  have "shareMatch (''/file/d/'' @ fid @ ''/'' @ post) = Some fid"
    using assms(1) by (simp add: t)
  then show ?thesis using shareMatch_skip [OF assms(3)] by simp
qed

lemma shareMatch_first_occurrence:
  "\<not> js_includes (pre @ ''/file/d'') ''/file/d/'' \<Longrightarrow> shareMatch (pre @ ''/file/d/'') = None"
proof (induction pre)
  case Nil
  show ?case by simp
next
  case (Cons c pre)
  let ?k = "''/file/d/''"
  have pr: "(c # pre) @ ''/file/d'' = c # (pre @ ''/file/d'')" by simp
  note n = not_includes_Cons [OF Cons.prems [unfolded pr]]
  have len: "length ?k \<le> length (c # (pre @ ''/file/d''))" by simp
  have ap: "(c # pre) @ ?k = (c # (pre @ ''/file/d'')) @ ''/''" by simp
  have np: "\<not> prefix ?k ((c # pre) @ ?k)"
    unfolding ap prefix_of_append [OF len] by (rule n(1))
  have c: "\<not> (prefix ?k (c # (pre @ ?k))
         \<and> takeWhile (\<lambda>x. x \<noteq> CHR ''/'') (drop 7 (pre @ ?k)) \<noteq> [])"
  proof
    assume "prefix ?k (c # (pre @ ?k))
         \<and> takeWhile (\<lambda>x. x \<noteq> CHR ''/'') (drop 7 (pre @ ?k)) \<noteq> []"
    then have "prefix ?k (c # (pre @ ?k))" by (rule conjunct1)
    then have "prefix ?k ((c # pre) @ ?k)" by (simp only: append_Cons)
    with np show False ..
  qed
  have "shareMatch (c # (pre @ ?k)) = shareMatch (pre @ ?k)"
    by (rule trans [OF shareMatch.simps(2) if_not_P [OF c]])
  then have "shareMatch ((c # pre) @ ?k) = shareMatch (pre @ ?k)" by (simp only: append_Cons)
  then show ?case using Cons.IH [OF n(3)] by (rule trans)
qed

section \<open>Facts about the upload routes\<close>

lemma linkIdentifier_nonempty: "linkIdentifier env e \<noteq> []"
  by (simp add: linkIdentifier_def split: option.splits)

lemma linkIdentifier_None: "linkIdentifier env None = ''link_'' @ string_of_nat (dateNow env)"
  by (simp add: linkIdentifier_def)

lemma videoDocs_pushUserVideo: "videoDocs (pushUserVideo u i st) = videoDocs st"
  by (simp add: pushUserVideo_def split: option.splits)

lemma saveAndRespond_succeeds:
  assumes "saveSucceeds env b" "cid \<noteq> []" "url \<noteq> []" "thumb \<noteq> []"
  shows "saveAndRespond env st u b cid url thumb msg =
           (Created (newVideo env (nextId st) u (b_title b) (b_description b) cid url thumb
                       (parseTags (b_tags b))),
            pushUserVideo u (nextId st)
              (st\<lparr>videoDocs := videoDocs st @
                     [newVideo env (nextId st) u (b_title b) (b_description b) cid url thumb
                        (parseTags (b_tags b))],
                  nextId := Suc (nextId st)\<rparr>))"
  using assms by (simp add: saveAndRespond_def saveSucceeds_def schemaAccepts_def Let_def newVideo_def)

lemma saveAndRespond_created:
  assumes "saveAndRespond env st u b cid url thumb msg = (Created v, st')"
  shows "v = newVideo env (nextId st) u (b_title b) (b_description b) cid url thumb
               (parseTags (b_tags b))
         \<and> v \<in> set (videoDocs st')"
  using assms
  by (auto simp: saveAndRespond_def Let_def videoDocs_pushUserVideo split: if_splits)

lemma saveAndRespond_answers:
  "fst (saveAndRespond env st u b cid url thumb msg) = ServerError msg
   \<or> (\<exists>v. fst (saveAndRespond env st u b cid url thumb msg) = Created v)"
  by (simp add: saveAndRespond_def Let_def)

lemma saved_record:
  assumes "createdRecord (fst (saveAndRespond env st u b cid url thumb msg)) = Some v"
  shows "v = newVideo env (nextId st) u (b_title b) (b_description b) cid url thumb
               (parseTags (b_tags b))
         \<and> v \<in> set (videoDocs (snd (saveAndRespond env st u b cid url thumb msg)))"
  using assms
  by (auto simp: saveAndRespond_def createdRecord_def Let_def videoDocs_pushUserVideo
           split: if_splits)

lemma newVideo_fields:
  "thumbnailUrl (newVideo env i u ttl d cid url t tg) = t"
  "videoUrl (newVideo env i u ttl d cid url t tg) = url"
  "cloudinaryId (newVideo env i u ttl d cid url t tg) = cid"
  by (simp_all add: newVideo_def)

lemma map_js_trim_parseTags: "map js_trim (parseTags t) = parseTags t"
  by (simp add: parseTags_def js_trim_idem split: option.splits)

lemma filter_parseTags: "filter (\<lambda>x. x \<noteq> []) (parseTags t) = claimedTags t"
  by (simp add: parseTags_def claimedTags_def js_split_def js_trim_def split: option.splits)

lemma tags_newVideo: "tags (newVideo env i u ttl desc cid url thumb (parseTags t)) = parseTags t"
  by (simp add: newVideo_def map_js_trim_parseTags)

lemma saved_tags:
  assumes "createdRecord (fst (saveAndRespond env st u b cid url thumb msg)) = Some v"
  shows "tags v = parseTags (b_tags b)
         \<and> v \<in> set (videoDocs (snd (saveAndRespond env st u b cid url thumb msg)))"
proof -
  note r = saved_record [OF assms]
  have "tags v = parseTags (b_tags b)" by (subst conjunct1 [OF r]) (rule tags_newVideo)
  then show ?thesis using conjunct2 [OF r] by simp
qed

lemma uploadFile_cases:
  "(\<exists>cid url thumb msg. uploadFile env st u upl b = saveAndRespond env st u b cid url thumb msg)
   \<or> createdRecord (fst (uploadFile env st u upl b)) = None"
  by (auto simp: uploadFile_def createdRecord_def split: option.splits sum.splits)

lemma uploadLink_cases:
  "(\<exists>cid url thumb msg. uploadLink env st u b = saveAndRespond env st u b cid url thumb msg)
   \<or> createdRecord (fst (uploadLink env st u b)) = None"
  by (auto simp: uploadLink_def createdRecord_def split: option.splits sum.splits)

lemma uploadLink_eq:
  assumes "b_videoUrl b = Some url" "url \<noteq> []" "urlParses env url"
    and "generateThumbnailUrl url = Inr t" "extractVideoId url = Inr e"
  shows "uploadLink env st u b =
           saveAndRespond env st u b (linkIdentifier env e) url t ''Error adding video link''"
  using assms by (simp add: uploadLink_def)

lemma uploadLink_record:
  assumes "b_videoUrl b = Some url" "url \<noteq> []" "urlParses env url"
    and "generateThumbnailUrl url = Inr t" "extractVideoId url = Inr e"
  shows "(saveSucceeds env b \<longrightarrow>
            createdRecord (fst (uploadLink env st u b))
              = Some (newVideo env (nextId st) u (b_title b) (b_description b)
                        (linkIdentifier env e) url t (parseTags (b_tags b))))
       \<and> (\<forall>v. createdRecord (fst (uploadLink env st u b)) = Some v \<longrightarrow>
              v = newVideo env (nextId st) u (b_title b) (b_description b)
                    (linkIdentifier env e) url t (parseTags (b_tags b))
              \<and> v \<in> set (videoDocs (snd (uploadLink env st u b))))
       \<and> (createdRecord (fst (uploadLink env st u b)) = None \<longrightarrow>
              fst (uploadLink env st u b) = ServerError ''Error adding video link'')"
proof -
  let ?msg = "''Error adding video link''"
  have e: "uploadLink env st u b = saveAndRespond env st u b (linkIdentifier env e) url t ?msg"
    by (rule uploadLink_eq [OF assms])
  have t: "t \<noteq> []" using generateThumbnailUrl_total [of url] assms(4) by auto
  have a: "createdRecord (fst (uploadLink env st u b))
              = Some (newVideo env (nextId st) u (b_title b) (b_description b)
                        (linkIdentifier env e) url t (parseTags (b_tags b)))"
    if "saveSucceeds env b"
    unfolding e
    by (simp add: saveAndRespond_succeeds [OF that linkIdentifier_nonempty assms(2) t]
          createdRecord_def)
  have c: "fst (uploadLink env st u b) = ServerError ?msg"
    if "createdRecord (fst (uploadLink env st u b)) = None"
    using that saveAndRespond_answers [of env st u b "linkIdentifier env e" url t ?msg]
    unfolding e by (auto simp: createdRecord_def)
  show ?thesis using a c saved_record [of env st u b "linkIdentifier env e" url t ?msg]
    unfolding e by blast
qed

lemma uploadLink_on_success:
  assumes "b_videoUrl b = Some url" "url \<noteq> []" "urlParses env url"
    and "generateThumbnailUrl url = Inr t" "extractVideoId url = Inr e"
    and "saveSucceeds env b"
  shows "map_option thumbnailUrl (createdRecord (fst (uploadLink env st u b))) = Some t"
    and "map_option cloudinaryId (createdRecord (fst (uploadLink env st u b)))
           = Some (linkIdentifier env e)"
proof -
  note r = uploadLink_record [OF assms(1-5), of st u]
  note eq = mp [OF conjunct1 [OF r] assms(6)]
  show "map_option thumbnailUrl (createdRecord (fst (uploadLink env st u b))) = Some t"
    by (simp only: eq option.map newVideo_fields)
  show "map_option cloudinaryId (createdRecord (fst (uploadLink env st u b)))
           = Some (linkIdentifier env e)"
    by (simp only: eq option.map newVideo_fields)
qed

lemma uploadLink_created_fields:
  assumes "b_videoUrl b = Some url" "url \<noteq> []" "urlParses env url"
    and "generateThumbnailUrl url = Inr t" "extractVideoId url = Inr e"
    and "createdRecord (fst (uploadLink env st u b)) = Some v"
  shows "thumbnailUrl v = t" and "videoUrl v = url" and "cloudinaryId v = linkIdentifier env e"
    and "v \<in> set (videoDocs (snd (uploadLink env st u b)))"
proof -
  note r = uploadLink_record [OF assms(1-5), of st u]
  note f = mp [OF spec [OF conjunct1 [OF conjunct2 [OF r]]] assms(6)]
  note v = conjunct1 [OF f]
  show "thumbnailUrl v = t" by (simp only: v newVideo_fields)
  show "videoUrl v = url" by (simp only: v newVideo_fields)
  show "cloudinaryId v = linkIdentifier env e" by (simp only: v newVideo_fields)
  show "v \<in> set (videoDocs (snd (uploadLink env st u b)))" by (rule conjunct2 [OF f])
qed

lemma uploadLink_not_created:
  assumes "b_videoUrl b = Some url" "url \<noteq> []" "urlParses env url"
    and "generateThumbnailUrl url = Inr t" "extractVideoId url = Inr e"
    and "createdRecord (fst (uploadLink env st u b)) = None"
  shows "fst (uploadLink env st u b) = ServerError ''Error adding video link''"
  by (rule mp [OF conjunct2 [OF conjunct2 [OF uploadLink_record [OF assms(1-5), of st u]]] assms(6)])

text \<open>
  The example requests, evaluated.
\<close>

lemma thumb_youtu_be:
  "generateThumbnailUrl ''https://youtu.be/abc123?t=5''
     = Inr ''https://img.youtube.com/vi/abc123/maxresdefault.jpg''"
  by code_simp

lemma extract_youtu_be: "extractVideoId ''https://youtu.be/abc123?t=5'' = Inr None"
  by code_simp

lemma thumb_example_file:
  "generateThumbnailUrl (path exampleFile)
     = Inr ''https://res.cloudinary.com/demo/video/so_0/upload/v1/video-sharing-platform/talk.mp4''"
  by code_simp

lemma saveSucceeds_linkBody: "saveSucceeds exampleEnv linkBody"
  by (simp add: saveSucceeds_def exampleEnv_def linkBody_def titleAccepted_def
        descriptionAccepted_def js_trim_def js_whitespace_def)

lemma saveSucceeds_driveOpenBody: "saveSucceeds exampleEnv driveOpenBody"
  by (simp add: saveSucceeds_def exampleEnv_def linkBody_def driveOpenBody_def titleAccepted_def
        descriptionAccepted_def js_trim_def js_whitespace_def)

lemma saveSucceeds_watchBody: "saveSucceeds exampleEnv watchBody"
  by (simp add: saveSucceeds_def exampleEnv_def linkBody_def watchBody_def titleAccepted_def
        descriptionAccepted_def js_trim_def js_whitespace_def)

lemma link_of_clock: "''link_'' @ string_of_nat (dateNow exampleEnv) = ''link_1700000000123''"
  by (simp add: exampleEnv_def string_of_nat.simps digit_char_def)

lemma tags_of_linkBody: "parseTags (b_tags linkBody) = [''a'', [], ''b'']"
  by code_simp

lemma claimed_of_linkBody: "claimedTags (b_tags linkBody) = [''a'', ''b'']"
  by code_simp

lemma created_link_example:
  "createdRecord (fst (uploadLink exampleEnv exampleStore 3 linkBody)) = Some storedLinkVideo"
proof -
  have b: "b_videoUrl linkBody = Some ''https://youtu.be/abc123?t=5''"
    by (simp add: linkBody_def)
  have n: "''https://youtu.be/abc123?t=5'' \<noteq> []" by (rule list.distinct(2))
  have p: "urlParses exampleEnv ''https://youtu.be/abc123?t=5''" by (simp add: exampleEnv_def)
  note r = uploadLink_record [OF b n p thumb_youtu_be extract_youtu_be, of exampleStore 3]
  show ?thesis unfolding storedLinkVideo_def
    by (rule mp [OF conjunct1 [OF r] saveSucceeds_linkBody])
qed

lemma created_file_example:
  "createdRecord (fst (uploadFile exampleEnv exampleStore 3 (Some exampleFile) linkBody))
     = Some storedFileVideo"
proof -
  have f: "filename exampleFile \<noteq> []" "path exampleFile \<noteq> []"
    by (simp_all add: exampleFile_def)
  have t: "''https://res.cloudinary.com/demo/video/so_0/upload/v1/video-sharing-platform/talk.mp4''
             \<noteq> []" by (rule list.distinct(2))
  note s = saveAndRespond_succeeds [OF saveSucceeds_linkBody f t,
      of exampleStore 3 "''Error uploading video''"]
  show ?thesis
    by (simp add: uploadFile_def thumb_example_file s createdRecord_def storedFileVideo_def)
qed

lemma tags_stored_examples:
  "tags storedLinkVideo = parseTags (b_tags linkBody)"
  "tags storedFileVideo = parseTags (b_tags linkBody)"
  unfolding storedLinkVideo_def storedFileVideo_def by (rule tags_newVideo)+

lemma drive_open_unrecognized:
  "\<not> js_includes ''https://drive.google.com/open'' ''cloudinary.com''"
  "js_includes ''https://drive.google.com/open'' ''drive.google.com'' \<longrightarrow>
     downloadMatch ''https://drive.google.com/open'' = None
     \<and> shareMatch ''https://drive.google.com/open'' = None"
  "\<not> js_includes ''https://drive.google.com/open'' ''youtube.com/watch?v=''"
  "\<not> js_includes ''https://drive.google.com/open'' ''youtu.be/''"
  "\<not> js_includes ''https://drive.google.com/open'' ''vimeo.com''"
  by code_simp+

lemma watch_is_plain_youtube:
  "js_includes ''https://www.youtube.com/watch?v=dQw4w9WgXcQ&t=1'' ''youtube.com''
   \<or> js_includes ''https://www.youtube.com/watch?v=dQw4w9WgXcQ&t=1'' ''youtu.be''
   \<or> js_includes ''https://www.youtube.com/watch?v=dQw4w9WgXcQ&t=1'' ''vimeo.com''"
  "\<not> js_includes ''https://www.youtube.com/watch?v=dQw4w9WgXcQ&t=1'' ''cloudinary.com''"
  "js_includes ''https://www.youtube.com/watch?v=dQw4w9WgXcQ&t=1'' ''drive.google.com'' \<longrightarrow>
     downloadMatch ''https://www.youtube.com/watch?v=dQw4w9WgXcQ&t=1'' = None
     \<and> shareMatch ''https://www.youtube.com/watch?v=dQw4w9WgXcQ&t=1'' = None"
  by code_simp+

lemma cast_examples:
  "castObjectId ''000000000000000000000009'' = Some 9"
  "castObjectId ''000000000000000000000007'' = Some 7"
  "castObjectId ''nothex'' = None"
  by code_simp+

section \<open>Thumbnails of Drive share links\<close>

text \<open>
  Claim C1, as amended. A URL that contains \<open>drive.google.com\<close> and does not contain
  \<open>cloudinary.com\<close> (whose branch is tried first), and that reads
  \<open>pre/file/d/<id>/post\<close> with a non-empty \<open><id>\<close> free of \<open>/\<close>, where the pattern
  \<open>/file/d/\<close> plus segment does not already match further left, gets the thumbnail
  \<open>https://drive.google.com/thumbnail?id=<id>&sz=w800-h450\<close>, whether or not the URL also
  carries an \<open>id=\<close> parameter.
\<close>

theorem drive_share_link_thumbnail:
  assumes "js_includes url ''drive.google.com''" "\<not> js_includes url ''cloudinary.com''"
    and "url = pre @ ''/file/d/'' @ fid @ ''/'' @ post" "fid \<noteq> []" "CHR ''/'' \<notin> set fid"
    and "shareMatch (pre @ ''/file/d/'') = None"
  shows "generateThumbnailUrl url
           = Inr (''https://drive.google.com/thumbnail?id='' @ fid @ ''&sz=w800-h450'')"
proof -
  have s: "shareMatch url = Some fid"
    unfolding assms(3) by (rule shareMatch_segment [OF assms(4,5,6)])
  have d: "driveFileId url = Some fid" by (simp add: driveFileId_def s)
  show ?thesis using assms(1,2) by (simp add: generateThumbnailUrl_def d)
qed

theorem drive_share_link_thumbnail_witness:
  "js_includes ''https://drive.google.com/file/d/abc/view'' ''drive.google.com''
   \<and> \<not> js_includes ''https://drive.google.com/file/d/abc/view'' ''cloudinary.com''
   \<and> shareMatch (''https://drive.google.com'' @ ''/file/d/'') = None
   \<and> generateThumbnailUrl ''https://drive.google.com/file/d/abc/view''
       = Inr ''https://drive.google.com/thumbnail?id=abc&sz=w800-h450''"
proof -
  have i: "js_includes ''https://drive.google.com/file/d/abc/view'' ''drive.google.com''"
    by code_simp
  have n: "\<not> js_includes ''https://drive.google.com/file/d/abc/view'' ''cloudinary.com''"
    by code_simp
  have u: "''https://drive.google.com/file/d/abc/view''
             = ''https://drive.google.com'' @ ''/file/d/'' @ ''abc'' @ ''/'' @ ''view''"
    by simp
  have f: "''abc'' \<noteq> []" "CHR ''/'' \<notin> set ''abc''" by simp_all
  have m: "shareMatch (''https://drive.google.com'' @ ''/file/d/'') = None" by code_simp
  have a: "''https://drive.google.com/thumbnail?id='' @ ''abc'' @ ''&sz=w800-h450''
             = ''https://drive.google.com/thumbnail?id=abc&sz=w800-h450''" by simp
  note t = drive_share_link_thumbnail [OF i n u f m, unfolded a]
  show ?thesis by (intro conjI i n m t)
qed

text \<open>
  Claim C1 as stated, for every URL with the path pattern, fails outside Drive: a URL
  of another host with the same path reaches the default branch.
\<close>

theorem drive_path_outside_drive_counterexample:
  "generateThumbnailUrl ''https://example.com/file/d/abc/view'' = Inr placeholderThumbnail
   \<and> generateThumbnailUrl ''https://example.com/file/d/abc/view''
       \<noteq> Inr ''https://drive.google.com/thumbnail?id=abc&sz=w800-h450''"
  by code_simp

section \<open>Stored tags\<close>

text \<open>
  Claim C2, as amended. The record that either upload route answers with status 201 is
  in the collection, and its tags are the segments of the tag text between the commas, each
  trimmed, in order and with the empty ones kept; an absent or empty tag text gives no
  tags. Leaving the empty tags out gives the tag set of the claim.
\<close>

theorem upload_tags_keep_empty_segments:
  "(createdRecord (fst (uploadFile env st u upl b)) = Some v \<longrightarrow>
      tags v = (case b_tags b of None \<Rightarrow> []
                | Some s \<Rightarrow> if s = [] then [] else map js_trim (js_split s '',''))
      \<and> filter (\<lambda>x. x \<noteq> []) (tags v) = claimedTags (b_tags b)
      \<and> v \<in> set (videoDocs (snd (uploadFile env st u upl b))))
   \<and> (createdRecord (fst (uploadLink env st u b)) = Some w \<longrightarrow>
      tags w = (case b_tags b of None \<Rightarrow> []
                | Some s \<Rightarrow> if s = [] then [] else map js_trim (js_split s '',''))
      \<and> filter (\<lambda>x. x \<noteq> []) (tags w) = claimedTags (b_tags b)
      \<and> w \<in> set (videoDocs (snd (uploadLink env st u b))))"
proof -
  have p: "(case b_tags b of None \<Rightarrow> []
                | Some s \<Rightarrow> if s = [] then [] else map js_trim (js_split s '','')) = parseTags (b_tags b)"
    by (simp add: parseTags_def)
  have a: "tags v = parseTags (b_tags b) \<and> v \<in> set (videoDocs (snd (uploadFile env st u upl b)))"
    if h: "createdRecord (fst (uploadFile env st u upl b)) = Some v"
  proof -
    from uploadFile_cases [of env st u upl b] h obtain cid url thumb msg
      where e: "uploadFile env st u upl b = saveAndRespond env st u b cid url thumb msg" by auto
    show ?thesis using saved_tags [of env st u b cid url thumb msg v] h unfolding e by simp
  qed
  have c: "tags w = parseTags (b_tags b) \<and> w \<in> set (videoDocs (snd (uploadLink env st u b)))"
    if h: "createdRecord (fst (uploadLink env st u b)) = Some w"
  proof -
    from uploadLink_cases [of env st u b] h obtain cid url thumb msg
      where e: "uploadLink env st u b = saveAndRespond env st u b cid url thumb msg" by auto
    show ?thesis using saved_tags [of env st u b cid url thumb msg w] h unfolding e by simp
  qed
  show ?thesis unfolding p using a c by (simp add: filter_parseTags)
qed

theorem upload_tags_keep_empty_segments_witness:
  "createdRecord (fst (uploadFile exampleEnv exampleStore 3 (Some exampleFile) linkBody))
     = Some storedFileVideo
   \<and> createdRecord (fst (uploadLink exampleEnv exampleStore 3 linkBody)) = Some storedLinkVideo
   \<and> filter (\<lambda>x. x \<noteq> []) (tags storedFileVideo) = claimedTags (b_tags linkBody)
   \<and> filter (\<lambda>x. x \<noteq> []) (tags storedLinkVideo) = claimedTags (b_tags linkBody)
   \<and> storedFileVideo
       \<in> set (videoDocs (snd (uploadFile exampleEnv exampleStore 3 (Some exampleFile) linkBody)))
   \<and> storedLinkVideo \<in> set (videoDocs (snd (uploadLink exampleEnv exampleStore 3 linkBody)))"
proof -
  note t = upload_tags_keep_empty_segments [of exampleEnv exampleStore 3 "Some exampleFile"
      linkBody storedFileVideo storedLinkVideo]
  note a = mp [OF conjunct1 [OF t] created_file_example]
  note c = mp [OF conjunct2 [OF t] created_link_example]
  show ?thesis
    by (intro conjI created_file_example created_link_example
          conjunct1 [OF conjunct2 [OF a]] conjunct1 [OF conjunct2 [OF c]]
          conjunct2 [OF conjunct2 [OF a]] conjunct2 [OF conjunct2 [OF c]])
qed

text \<open>
  Claim C2 as stated fails on the tag text \<open>a,,b\<close>: the stored tags keep the empty
  segment between the two commas.
\<close>

theorem upload_tags_drop_empty_segments_counterexample:
  "map_option tags (createdRecord (fst (uploadLink exampleEnv exampleStore 3 linkBody)))
     = Some [''a'', [], ''b'']
   \<and> claimedTags (b_tags linkBody) = [''a'', ''b'']
   \<and> map_option tags (createdRecord (fst (uploadLink exampleEnv exampleStore 3 linkBody)))
       \<noteq> Some (claimedTags (b_tags linkBody))"
proof -
  have s: "map_option tags (createdRecord (fst (uploadLink exampleEnv exampleStore 3 linkBody)))
             = Some [''a'', [], ''b'']"
    by (simp only: created_link_example option.map tags_stored_examples tags_of_linkBody)
  have d: "Some [''a'', [], ''b''] \<noteq> Some [''a'', ''b'']" by simp
  show ?thesis unfolding s claimed_of_linkBody using d by simp
qed

section \<open>The youtu.be link\<close>

text \<open>
  Claim C3. A link upload whose \<open>videoUrl\<close> is \<open>https://youtu.be/abc123?t=5\<close>, accepted by
  \<open>new URL\<close>: when the record is saved the route answers 201 with a record whose thumbnail
  is \<open>https://img.youtube.com/vi/abc123/maxresdefault.jpg\<close>; every record it answers has
  that thumbnail and is in the collection; and when it answers no record, the answer is
  status 500 from the persistence layer, never a validation error.
\<close>

theorem youtu_be_link_thumbnail:
  assumes "b_videoUrl b = Some ''https://youtu.be/abc123?t=5''"
    and "urlParses env ''https://youtu.be/abc123?t=5''"
  shows "(saveSucceeds env b \<longrightarrow>
            map_option thumbnailUrl (createdRecord (fst (uploadLink env st u b)))
              = Some ''https://img.youtube.com/vi/abc123/maxresdefault.jpg'')
       \<and> (\<forall>v. createdRecord (fst (uploadLink env st u b)) = Some v \<longrightarrow>
              thumbnailUrl v = ''https://img.youtube.com/vi/abc123/maxresdefault.jpg''
              \<and> videoUrl v = ''https://youtu.be/abc123?t=5''
              \<and> v \<in> set (videoDocs (snd (uploadLink env st u b))))
       \<and> (createdRecord (fst (uploadLink env st u b)) = None \<longrightarrow>
              fst (uploadLink env st u b) = ServerError ''Error adding video link'')"
proof (intro conjI impI allI)
  have n: "''https://youtu.be/abc123?t=5'' \<noteq> []" by (rule list.distinct(2))
  note h = assms(1) n assms(2) thumb_youtu_be extract_youtu_be
  show "map_option thumbnailUrl (createdRecord (fst (uploadLink env st u b)))
              = Some ''https://img.youtube.com/vi/abc123/maxresdefault.jpg''"
    if "saveSucceeds env b" by (rule uploadLink_on_success(1) [OF h that])
  show "thumbnailUrl v = ''https://img.youtube.com/vi/abc123/maxresdefault.jpg''"
    if "createdRecord (fst (uploadLink env st u b)) = Some v" for v
    by (rule uploadLink_created_fields(1) [OF h that])
  show "videoUrl v = ''https://youtu.be/abc123?t=5''"
    if "createdRecord (fst (uploadLink env st u b)) = Some v" for v
    by (rule uploadLink_created_fields(2) [OF h that])
  show "v \<in> set (videoDocs (snd (uploadLink env st u b)))"
    if "createdRecord (fst (uploadLink env st u b)) = Some v" for v
    by (rule uploadLink_created_fields(4) [OF h that])
  show "fst (uploadLink env st u b) = ServerError ''Error adding video link''"
    if "createdRecord (fst (uploadLink env st u b)) = None"
    by (rule uploadLink_not_created [OF h that])
qed

theorem youtu_be_link_thumbnail_witness:
  "b_videoUrl linkBody = Some ''https://youtu.be/abc123?t=5''
   \<and> urlParses exampleEnv ''https://youtu.be/abc123?t=5'' \<and> saveSucceeds exampleEnv linkBody
   \<and> map_option thumbnailUrl (createdRecord (fst (uploadLink exampleEnv exampleStore 3 linkBody)))
       = Some ''https://img.youtube.com/vi/abc123/maxresdefault.jpg''"
proof -
  have b: "b_videoUrl linkBody = Some ''https://youtu.be/abc123?t=5''"
    by (simp add: linkBody_def)
  have p: "urlParses exampleEnv ''https://youtu.be/abc123?t=5''" by (simp add: exampleEnv_def)
  note t = youtu_be_link_thumbnail [OF b p, of exampleStore 3]
  show ?thesis
    by (intro conjI b p saveSucceeds_linkBody mp [OF conjunct1 [OF t] saveSucceeds_linkBody])
qed

section \<open>URLs of no recognized provider\<close>

text \<open>
  Claim C4. A URL without \<open>cloudinary.com\<close>, \<open>youtube.com/watch?v=\<close>, \<open>youtu.be/\<close> and
  \<open>vimeo.com\<close>, which if it contains \<open>drive.google.com\<close> matches neither the \<open>id=\<close>
  nor the \<open>/file/d/\<close> pattern, gets the placeholder thumbnail and the identifier \<open>null\<close>;
  a link upload of it (non-empty and accepted by \<open>new URL\<close>) stores the identifier
  \<open>link_\<close> followed by the clock reading.
\<close>

theorem unrecognized_url_placeholder_and_link_identifier:
  assumes "\<not> js_includes url ''cloudinary.com''"
    and "js_includes url ''drive.google.com'' \<longrightarrow> downloadMatch url = None \<and> shareMatch url = None"
    and "\<not> js_includes url ''youtube.com/watch?v=''" and "\<not> js_includes url ''youtu.be/''"
    and "\<not> js_includes url ''vimeo.com''"
  shows "generateThumbnailUrl url = Inr placeholderThumbnail
       \<and> extractVideoId url = Inr None
       \<and> (b_videoUrl b = Some url \<and> url \<noteq> [] \<and> urlParses env url \<longrightarrow>
            (saveSucceeds env b \<longrightarrow>
               map_option cloudinaryId (createdRecord (fst (uploadLink env st u b)))
                 = Some (''link_'' @ string_of_nat (dateNow env)))
            \<and> (\<forall>v. createdRecord (fst (uploadLink env st u b)) = Some v \<longrightarrow>
                  cloudinaryId v = ''link_'' @ string_of_nat (dateNow env)
                  \<and> thumbnailUrl v = placeholderThumbnail
                  \<and> v \<in> set (videoDocs (snd (uploadLink env st u b))))
            \<and> (createdRecord (fst (uploadLink env st u b)) = None \<longrightarrow>
                  fst (uploadLink env st u b) = ServerError ''Error adding video link''))"
proof (intro conjI impI allI)
  show t: "generateThumbnailUrl url = Inr placeholderThumbnail"
    by (rule unrecognized_thumbnail [OF assms])
  show e: "extractVideoId url = Inr None"
    by (rule unextracted_identifier [OF assms(1,2)])
  {
    assume a: "b_videoUrl b = Some url \<and> url \<noteq> [] \<and> urlParses env url"
    note h = conjunct1 [OF a] conjunct1 [OF conjunct2 [OF a]] conjunct2 [OF conjunct2 [OF a]] t e
    show "map_option cloudinaryId (createdRecord (fst (uploadLink env st u b)))
                 = Some (''link_'' @ string_of_nat (dateNow env))"
      if "saveSucceeds env b"
      by (rule uploadLink_on_success(2) [OF h that, unfolded linkIdentifier_None])
    show "cloudinaryId v = ''link_'' @ string_of_nat (dateNow env)"
      if "createdRecord (fst (uploadLink env st u b)) = Some v" for v
      by (rule uploadLink_created_fields(3) [OF h that, unfolded linkIdentifier_None])
    show "thumbnailUrl v = placeholderThumbnail"
      if "createdRecord (fst (uploadLink env st u b)) = Some v" for v
      by (rule uploadLink_created_fields(1) [OF h that])
    show "v \<in> set (videoDocs (snd (uploadLink env st u b)))"
      if "createdRecord (fst (uploadLink env st u b)) = Some v" for v
      by (rule uploadLink_created_fields(4) [OF h that])
    show "fst (uploadLink env st u b) = ServerError ''Error adding video link''"
      if "createdRecord (fst (uploadLink env st u b)) = None"
      by (rule uploadLink_not_created [OF h that])
  }
qed

theorem unrecognized_url_placeholder_and_link_identifier_witness:
  "js_includes ''https://drive.google.com/open'' ''drive.google.com''
   \<and> downloadMatch ''https://drive.google.com/open'' = None
   \<and> shareMatch ''https://drive.google.com/open'' = None
   \<and> generateThumbnailUrl ''https://drive.google.com/open'' = Inr placeholderThumbnail
   \<and> extractVideoId ''https://drive.google.com/open'' = Inr None
   \<and> map_option cloudinaryId
        (createdRecord (fst (uploadLink exampleEnv exampleStore 3 driveOpenBody)))
       = Some ''link_1700000000123''"
proof -
  note t = unrecognized_url_placeholder_and_link_identifier [OF drive_open_unrecognized,
      of driveOpenBody exampleEnv exampleStore 3]
  have i: "js_includes ''https://drive.google.com/open'' ''drive.google.com''" by code_simp
  have a: "b_videoUrl driveOpenBody = Some ''https://drive.google.com/open''
           \<and> ''https://drive.google.com/open'' \<noteq> []
           \<and> urlParses exampleEnv ''https://drive.google.com/open''"
    by (simp add: driveOpenBody_def exampleEnv_def)
  note up = mp [OF conjunct2 [OF conjunct2 [OF t]] a]
  note id = mp [OF conjunct1 [OF up] saveSucceeds_driveOpenBody, unfolded link_of_clock]
  note m = mp [OF drive_open_unrecognized(2) i]
  show ?thesis
    by (intro conjI i conjunct1 [OF m] conjunct2 [OF m] conjunct1 [OF t]
          conjunct1 [OF conjunct2 [OF t]] id)
qed

section \<open>Identifiers of YouTube and Vimeo links\<close>

text \<open>
  Claim C10, as amended. For a URL that contains \<open>youtube.com\<close>, \<open>youtu.be\<close> or
  \<open>vimeo.com\<close>, does not contain \<open>cloudinary.com\<close> and, if it contains
  \<open>drive.google.com\<close>, matches neither the \<open>id=\<close> nor the \<open>/file/d/\<close> pattern,
  \<open>extractVideoId\<close> returns \<open>null\<close>, so a link upload of it stores \<open>link_\<close> followed by
  the clock reading. An identifier is extracted only for a URL that contains
  \<open>cloudinary.com\<close>, or contains \<open>drive.google.com\<close> and matches one of the two patterns.
\<close>

theorem youtube_vimeo_links_outside_blob_and_drive:
  assumes "js_includes url ''youtube.com'' \<or> js_includes url ''youtu.be''
           \<or> js_includes url ''vimeo.com''"
    and "\<not> js_includes url ''cloudinary.com''"
    and "js_includes url ''drive.google.com'' \<longrightarrow> downloadMatch url = None \<and> shareMatch url = None"
  shows "extractVideoId url = Inr None
       \<and> (b_videoUrl b = Some url \<and> urlParses env url \<longrightarrow>
            (saveSucceeds env b \<longrightarrow>
               map_option cloudinaryId (createdRecord (fst (uploadLink env st u b)))
                 = Some (''link_'' @ string_of_nat (dateNow env)))
            \<and> (\<forall>v. createdRecord (fst (uploadLink env st u b)) = Some v \<longrightarrow>
                  cloudinaryId v = ''link_'' @ string_of_nat (dateNow env)
                  \<and> videoUrl v = url
                  \<and> v \<in> set (videoDocs (snd (uploadLink env st u b))))
            \<and> (createdRecord (fst (uploadLink env st u b)) = None \<longrightarrow>
                  fst (uploadLink env st u b) = ServerError ''Error adding video link''))
       \<and> (\<forall>w i. extractVideoId w = Inr (Some i) \<longrightarrow>
              js_includes w ''cloudinary.com''
              \<or> (js_includes w ''drive.google.com''
                  \<and> (downloadMatch w \<noteq> None \<or> shareMatch w \<noteq> None)))"
proof (intro conjI impI allI)
  have ne: "url \<noteq> []"
  proof
    assume "url = []"
    with assms(1) show False by simp
  qed
  show e: "extractVideoId url = Inr None" by (rule unextracted_identifier [OF assms(2,3)])
  obtain t where t: "generateThumbnailUrl url = Inr t"
    using generateThumbnailUrl_total [of url] by blast
  {
    assume a: "b_videoUrl b = Some url \<and> urlParses env url"
    note h = conjunct1 [OF a] ne conjunct2 [OF a] t e
    show "map_option cloudinaryId (createdRecord (fst (uploadLink env st u b)))
                 = Some (''link_'' @ string_of_nat (dateNow env))"
      if "saveSucceeds env b"
      by (rule uploadLink_on_success(2) [OF h that, unfolded linkIdentifier_None])
    show "cloudinaryId v = ''link_'' @ string_of_nat (dateNow env)"
      if "createdRecord (fst (uploadLink env st u b)) = Some v" for v
      by (rule uploadLink_created_fields(3) [OF h that, unfolded linkIdentifier_None])
    show "videoUrl v = url"
      if "createdRecord (fst (uploadLink env st u b)) = Some v" for v
      by (rule uploadLink_created_fields(2) [OF h that])
    show "v \<in> set (videoDocs (snd (uploadLink env st u b)))"
      if "createdRecord (fst (uploadLink env st u b)) = Some v" for v
      by (rule uploadLink_created_fields(4) [OF h that])
    show "fst (uploadLink env st u b) = ServerError ''Error adding video link''"
      if "createdRecord (fst (uploadLink env st u b)) = None"
      by (rule uploadLink_not_created [OF h that])
  }
  show "js_includes w ''cloudinary.com''
              \<or> (js_includes w ''drive.google.com''
                  \<and> (downloadMatch w \<noteq> None \<or> shareMatch w \<noteq> None))"
    if "extractVideoId w = Inr (Some i)" for w i
    by (rule identifier_only_blob_or_drive [OF that])
qed

theorem youtube_vimeo_links_outside_blob_and_drive_witness:
  "js_includes ''https://www.youtube.com/watch?v=dQw4w9WgXcQ&t=1'' ''youtube.com''
   \<and> \<not> js_includes ''https://www.youtube.com/watch?v=dQw4w9WgXcQ&t=1'' ''cloudinary.com''
   \<and> \<not> js_includes ''https://www.youtube.com/watch?v=dQw4w9WgXcQ&t=1'' ''drive.google.com''
   \<and> saveSucceeds exampleEnv watchBody
   \<and> extractVideoId ''https://www.youtube.com/watch?v=dQw4w9WgXcQ&t=1'' = Inr None
   \<and> map_option cloudinaryId (createdRecord (fst (uploadLink exampleEnv exampleStore 3 watchBody)))
       = Some ''link_1700000000123''"
proof -
  note t = youtube_vimeo_links_outside_blob_and_drive [OF watch_is_plain_youtube,
      of watchBody exampleEnv exampleStore 3]
  have y: "js_includes ''https://www.youtube.com/watch?v=dQw4w9WgXcQ&t=1'' ''youtube.com''"
    by code_simp
  have nd: "\<not> js_includes ''https://www.youtube.com/watch?v=dQw4w9WgXcQ&t=1'' ''drive.google.com''"
    by code_simp
  have a: "b_videoUrl watchBody = Some ''https://www.youtube.com/watch?v=dQw4w9WgXcQ&t=1''
           \<and> urlParses exampleEnv ''https://www.youtube.com/watch?v=dQw4w9WgXcQ&t=1''"
    by (simp add: watchBody_def exampleEnv_def)
  note up = mp [OF conjunct1 [OF conjunct2 [OF t]] a]
  note id = mp [OF conjunct1 [OF up] saveSucceeds_watchBody, unfolded link_of_clock]
  show ?thesis
    by (intro conjI y watch_is_plain_youtube(2) nd saveSucceeds_watchBody conjunct1 [OF t] id)
qed

text \<open>
  Claim C10 as stated, for every YouTube or Vimeo URL, fails where the URL also carries
  the marker of an earlier branch: a YouTube watch URL with \<open>cloudinary.com\<close> in its query
  gets the text before the first dot of its last path segment as identifier, and a
  \<open>youtu.be\<close> URL with \<open>drive.google.com\<close> and an \<open>id=\<close> parameter in its query gets a
  Drive identifier.
\<close>

theorem youtube_url_with_other_marker_counterexample:
  "js_includes ''https://www.youtube.com/watch?v=abc&ref=cloudinary.com'' ''youtube.com/watch?v=''
   \<and> extractVideoId ''https://www.youtube.com/watch?v=abc&ref=cloudinary.com''
       = Inr (Some ''watch?v=abc&ref=cloudinary'')
   \<and> extractVideoId ''https://www.youtube.com/watch?v=abc&ref=cloudinary.com'' \<noteq> Inr None
   \<and> js_includes ''https://youtu.be/abc123?id=7&u=drive.google.com'' ''youtu.be/''
   \<and> extractVideoId ''https://youtu.be/abc123?id=7&u=drive.google.com'' = Inr (Some ''drive_7'')"
  by code_simp

section \<open>The second page of three videos\<close>

lemma three_elements: "length xs = 3 \<Longrightarrow> \<exists>a b c. xs = [a, b, c]"
  by (cases xs; cases "tl xs"; cases "tl (tl xs)") auto

lemma newestFirst_length: "length (newestFirst docs) = length docs"
  by (simp add: newestFirst_def)

lemma newestFirst_mset: "mset (newestFirst docs) = mset docs"
  by (simp add: newestFirst_def)

lemma newestFirst_sorted: "sorted (map (\<lambda>v. - int (createdAt v)) (newestFirst docs))"
  by (simp add: newestFirst_def)

text \<open>
  Claim C9. When exactly three videos match the query of \<open>GET /\<close>, the request
  \<open>page=2&limit=1\<close> that the database answers returns \<open>totalPages = 3\<close> and exactly one
  video: the middle one of the three matching videos in order of creation time, newest
  first, so that one matching video is at least as new and one is at least as old.
\<close>

theorem second_page_of_three:
  assumes "length (matchingVideos env st search) = 3"
    and "\<not> throws env QueryVideos" "\<not> throws env CountVideos"
  shows "listVideos env st (Some 2) (Some 1) search
           = (OkPage [newestFirst (matchingVideos env st search) ! 1] (Some 3) 2, st)
       \<and> mset (newestFirst (matchingVideos env st search)) = mset (matchingVideos env st search)
       \<and> createdAt (newestFirst (matchingVideos env st search) ! 2)
            \<le> createdAt (newestFirst (matchingVideos env st search) ! 1)
       \<and> createdAt (newestFirst (matchingVideos env st search) ! 1)
            \<le> createdAt (newestFirst (matchingVideos env st search) ! 0)"
proof -
  let ?s = "newestFirst (matchingVideos env st search)"
  have "length ?s = 3" using assms(1) by (simp add: newestFirst_length)
  then obtain a b c where s: "?s = [a, b, c]" using three_elements by blast
  have "sorted (map (\<lambda>v. - int (createdAt v)) ?s)" by (rule newestFirst_sorted)
  then have ord: "createdAt c \<le> createdAt b" "createdAt b \<le> createdAt a"
    by (simp_all add: s)
  have page: "listVideos env st (Some 2) (Some 1) search = (OkPage [b] (Some 3) 2, st)"
    using assms by (simp add: listVideos_def Let_def s)
  have perm: "mset ?s = mset (matchingVideos env st search)" by (rule newestFirst_mset)
  have nths: "?s ! 0 = a" "?s ! 1 = b" "?s ! 2 = c" by (simp_all add: s)
  show ?thesis using page ord perm by (simp only: nths)
qed

theorem second_page_of_three_witness:
  "length (matchingVideos exampleEnv catalogStore None) = 3
   \<and> listVideos exampleEnv catalogStore (Some 2) (Some 1) None
       = (OkPage [catalogVideo 14 300 False] (Some 3) 2, catalogStore)"
proof -
  have m: "matchingVideos exampleEnv catalogStore None
             = [catalogVideo 11 200 False, catalogVideo 13 400 False, catalogVideo 14 300 False]"
    by (simp add: matchingVideos_def catalogStore_def listQuery_def catalogVideo_def)
  have n: "\<not> throws exampleEnv QueryVideos" "\<not> throws exampleEnv CountVideos"
    by (simp_all add: exampleEnv_def)
  have l: "length (matchingVideos exampleEnv catalogStore None) = 3" by (simp add: m)
  have s: "newestFirst (matchingVideos exampleEnv catalogStore None)
             = [catalogVideo 13 400 False, catalogVideo 14 300 False, catalogVideo 11 200 False]"
    by (simp add: m newestFirst_def catalogVideo_def)
  show ?thesis using second_page_of_three [OF l n] l by (simp add: s)
qed

section \<open>Facts about the store operations\<close>

lemma findById_vid: "findById st i = Some v \<Longrightarrow> vid v = i"
  by (auto simp: findById_def find_Some_iff)

lemma find_replaceDoc:
  "find (\<lambda>w. vid w = i) docs = Some v \<Longrightarrow> vid v' = i
   \<Longrightarrow> find (\<lambda>w. vid w = i) (replaceDoc v' docs) = Some v'"
  by (induction docs) (auto simp: replaceDoc_def split: if_splits)

lemma find_deleteDoc: "find (\<lambda>w. vid w = i) (deleteDoc i docs) = None"
  by (induction docs) (auto simp: deleteDoc_def)

lemma findById_example: "findById exampleStore 7 = Some exampleVideo"
  by (simp add: findById_def exampleStore_def exampleVideo_def)

section \<open>Liking\<close>

lemma likeVideo_result:
  assumes "findById st i = Some v" "\<not> throws env FindVideo" "\<not> throws env SaveVideo"
  shows "likeVideo env st u i =
           (OkLiked (u \<notin> set (likes v))
              (length (if u \<in> set (likes v) then filter (\<lambda>j. j \<noteq> u) (likes v) else likes v @ [u])),
            st\<lparr>videoDocs := replaceDoc
                 (v\<lparr>likes := (if u \<in> set (likes v) then filter (\<lambda>j. j \<noteq> u) (likes v) else likes v @ [u]),
                    updatedAt := dateNow env\<rparr>) (videoDocs st)\<rparr>)"
  using assms by (simp add: likeVideo_def Let_def)

lemma likeVideo_found:
  assumes "findById st i = Some v" "\<not> throws env FindVideo" "\<not> throws env SaveVideo"
  shows "findById (snd (likeVideo env st u i)) i =
           Some (v\<lparr>likes := (if u \<in> set (likes v) then filter (\<lambda>j. j \<noteq> u) (likes v) else likes v @ [u]),
                    updatedAt := dateNow env\<rparr>)"
proof -
  have "vid v = i" using assms(1) by (rule findById_vid)
  then show ?thesis
    using assms find_replaceDoc [of i "videoDocs st" v]
    by (simp add: likeVideo_result [OF assms] findById_def)
qed

text \<open>
  Claim C5. A video is liked by a user who is not among its likes, then the same user
  calls the route again (the two calls may see different clocks; the store answers both).
  The first call answers \<open>liked = true\<close> with one like more, the second \<open>liked = false\<close>
  with the original count, and the stored list of likes is the original list again: the
  same elements, the same length. Duplicates among the other users' likes do not matter.
\<close>

theorem like_then_unlike_restores_likes:
  assumes "findById st i = Some v" "u \<notin> set (likes v)"
    and "\<not> throws env1 FindVideo" "\<not> throws env1 SaveVideo"
    and "\<not> throws env2 FindVideo" "\<not> throws env2 SaveVideo"
  shows "fst (likeVideo env1 st u i) = OkLiked True (Suc (length (likes v)))
       \<and> map_option likes (findById (snd (likeVideo env1 st u i)) i) = Some (likes v @ [u])
       \<and> fst (likeVideo env2 (snd (likeVideo env1 st u i)) u i) = OkLiked False (length (likes v))
       \<and> map_option likes (findById (snd (likeVideo env2 (snd (likeVideo env1 st u i)) u i)) i)
           = Some (likes v)"
proof -
  let ?st1 = "snd (likeVideo env1 st u i)"
  let ?v1 = "v\<lparr>likes := likes v @ [u], updatedAt := dateNow env1\<rparr>"
  have f1: "findById ?st1 i = Some ?v1"
    using likeVideo_found [OF assms(1,3,4), of u] assms(2) by simp
  have r1: "fst (likeVideo env1 st u i) = OkLiked True (Suc (length (likes v)))"
    using assms(2) by (simp add: likeVideo_result [OF assms(1,3,4)])
  have keep: "filter (\<lambda>j. j \<noteq> u) (likes v) = likes v"
    using assms(2) by (simp add: filter_id_conv) blast
  let ?v2 = "?v1\<lparr>likes := likes v, updatedAt := dateNow env2\<rparr>"
  have f2: "findById (snd (likeVideo env2 ?st1 u i)) i = Some ?v2"
    using likeVideo_found [OF f1 assms(5,6), of u] keep by simp
  have r2: "fst (likeVideo env2 ?st1 u i) = OkLiked False (length (likes v))"
    using keep by (simp add: likeVideo_result [OF f1 assms(5,6)])
  show ?thesis using f1 r1 f2 r2 by simp
qed

theorem like_then_unlike_restores_likes_witness:
  "findById exampleStore 7 = Some exampleVideo \<and> 2 \<notin> set (likes exampleVideo)
   \<and> fst (likeVideo exampleEnv exampleStore 2 7) = OkLiked True 2
   \<and> map_option likes
        (findById (snd (likeVideo exampleEnv (snd (likeVideo exampleEnv exampleStore 2 7)) 2 7)) 7)
       = Some [4]"
proof -
  have l: "likes exampleVideo = [4]" by (simp add: exampleVideo_def)
  have n: "\<not> throws exampleEnv FindVideo" "\<not> throws exampleEnv SaveVideo"
    by (simp_all add: exampleEnv_def)
  have m: "2 \<notin> set (likes exampleVideo)" by (simp add: l)
  show ?thesis
    using like_then_unlike_restores_likes [OF findById_example m n n] findById_example m
    by (simp add: l)
qed

text \<open>
  Claim C6. On a video whose likes hold no user twice, one call of the like route that
  the store answers leaves a list without duplicates, and changes the membership of the
  caller and of nobody else: a caller who was present is removed and the answer is
  \<open>liked = false\<close>, a caller who was absent is appended and the answer is \<open>liked = true\<close>;
  the answered \<open>likesCount\<close> is the length of the new list.
\<close>

theorem like_toggle_flips_caller_only:
  assumes "findById st i = Some v" "distinct (likes v)"
    and "\<not> throws env FindVideo" "\<not> throws env SaveVideo"
  shows "\<exists>l'. map_option likes (findById (snd (likeVideo env st u i)) i) = Some l'
           \<and> l' = (if u \<in> set (likes v) then filter (\<lambda>j. j \<noteq> u) (likes v) else likes v @ [u])
           \<and> fst (likeVideo env st u i) = OkLiked (u \<notin> set (likes v)) (length l')
           \<and> distinct l'
           \<and> (u \<in> set l' \<longleftrightarrow> u \<notin> set (likes v))
           \<and> (\<forall>w. w \<noteq> u \<longrightarrow> (w \<in> set l' \<longleftrightarrow> w \<in> set (likes v)))"
proof -
  let ?l = "if u \<in> set (likes v) then filter (\<lambda>j. j \<noteq> u) (likes v) else likes v @ [u]"
  have f: "map_option likes (findById (snd (likeVideo env st u i)) i) = Some ?l"
    by (simp add: likeVideo_found [OF assms(1,3,4)])
  have r: "fst (likeVideo env st u i) = OkLiked (u \<notin> set (likes v)) (length ?l)"
    by (simp add: likeVideo_result [OF assms(1,3,4)])
  have d: "distinct ?l" using assms(2) by simp
  have m: "u \<in> set ?l \<longleftrightarrow> u \<notin> set (likes v)" by simp
  have o: "\<forall>w. w \<noteq> u \<longrightarrow> (w \<in> set ?l \<longleftrightarrow> w \<in> set (likes v))" by simp
  show ?thesis using f r d m o by blast
qed

theorem like_toggle_flips_caller_only_witness:
  "findById exampleStore 7 = Some exampleVideo \<and> distinct (likes exampleVideo)
   \<and> fst (likeVideo exampleEnv exampleStore 4 7) = OkLiked False 0
   \<and> fst (likeVideo exampleEnv exampleStore 2 7) = OkLiked True 2"
proof -
  have l: "likes exampleVideo = [4]" by (simp add: exampleVideo_def)
  have n: "\<not> throws exampleEnv FindVideo" "\<not> throws exampleEnv SaveVideo"
    by (simp_all add: exampleEnv_def)
  have d: "distinct (likes exampleVideo)" by (simp add: l)
  show ?thesis
    using like_toggle_flips_caller_only [OF findById_example d n, of 4]
      like_toggle_flips_caller_only [OF findById_example d n, of 2] findById_example d
    by (simp add: l)
qed

section \<open>Deleting\<close>

lemma deleteVideo_refused:
  "(findById st i = None \<longrightarrow>
      snd (deleteVideo env st u i) = st
      \<and> (\<not> throws env FindVideo \<longrightarrow> fst (deleteVideo env st u i) = NotFound ''Video not found''))
   \<and> (\<forall>v. findById st i = Some v \<and> uploader v \<noteq> u \<longrightarrow>
      snd (deleteVideo env st u i) = st
      \<and> (\<not> throws env FindVideo \<longrightarrow>
           fst (deleteVideo env st u i) = Forbidden ''Not authorized to delete this video''))"
  by (simp add: deleteVideo_def)

lemma deleteVideoRequest_cast:
  "castObjectId idParam = Some i \<Longrightarrow> deleteVideoRequest env st u idParam = deleteVideo env st u i"
  by (simp add: deleteVideoRequest_def)

lemma deleteVideoRequest_malformed:
  "castObjectId idParam = None
   \<Longrightarrow> deleteVideoRequest env st u idParam = (ServerError ''Error deleting video'', st)"
  by (simp add: deleteVideoRequest_def)

lemma findById_example_absent: "findById exampleStore 9 = None"
  by (simp add: findById_def exampleStore_def exampleVideo_def)

text \<open>
  Claim C7, as amended. A delete request changes nothing in the store (video records,
  owners' lists, blob store, calls made to it) in each of these cases: the id is a
  well-formed object id that no video carries, and the request is refused with status 404
  when the lookup is answered; the caller is not the owner of the video the id names, and
  the request is refused with status 403 when the lookup is answered; the id is not a
  well-formed object id, and the answer is status 500.
\<close>

theorem delete_request_refused_leaves_store:
  "(castObjectId idParam = Some i \<and> findById st i = None \<longrightarrow>
      snd (deleteVideoRequest env st u idParam) = st
      \<and> (\<not> throws env FindVideo \<longrightarrow>
           fst (deleteVideoRequest env st u idParam) = NotFound ''Video not found''))
   \<and> (\<forall>v. castObjectId idParam = Some i \<and> findById st i = Some v \<and> uploader v \<noteq> u \<longrightarrow>
      snd (deleteVideoRequest env st u idParam) = st
      \<and> (\<not> throws env FindVideo \<longrightarrow>
           fst (deleteVideoRequest env st u idParam)
             = Forbidden ''Not authorized to delete this video''))
   \<and> (castObjectId idParam = None \<longrightarrow>
      deleteVideoRequest env st u idParam = (ServerError ''Error deleting video'', st))"
proof (intro conjI impI allI)
  note r = deleteVideo_refused [of st i env u]
  {
    assume a: "castObjectId idParam = Some i \<and> findById st i = None"
    note e = deleteVideoRequest_cast [OF conjunct1 [OF a], of env st u]
    note n = mp [OF conjunct1 [OF r] conjunct2 [OF a]]
    show "snd (deleteVideoRequest env st u idParam) = st"
      unfolding e by (rule conjunct1 [OF n])
    show "fst (deleteVideoRequest env st u idParam) = NotFound ''Video not found''"
      if "\<not> throws env FindVideo"
      unfolding e by (rule mp [OF conjunct2 [OF n] that])
  }
  {
    fix v
    assume a: "castObjectId idParam = Some i \<and> findById st i = Some v \<and> uploader v \<noteq> u"
    note e = deleteVideoRequest_cast [OF conjunct1 [OF a], of env st u]
    note n = mp [OF spec [OF conjunct2 [OF r]] conjunct2 [OF a]]
    show "snd (deleteVideoRequest env st u idParam) = st"
      unfolding e by (rule conjunct1 [OF n])
    show "fst (deleteVideoRequest env st u idParam)
            = Forbidden ''Not authorized to delete this video''"
      if "\<not> throws env FindVideo"
      unfolding e by (rule mp [OF conjunct2 [OF n] that])
  }
  show "deleteVideoRequest env st u idParam = (ServerError ''Error deleting video'', st)"
    if "castObjectId idParam = None"
    by (rule deleteVideoRequest_malformed [OF that])
qed

theorem delete_request_refused_leaves_store_witness:
  "castObjectId ''000000000000000000000009'' = Some 9 \<and> findById exampleStore 9 = None
   \<and> \<not> throws exampleEnv FindVideo
   \<and> snd (deleteVideoRequest exampleEnv exampleStore 2 ''000000000000000000000009'') = exampleStore
   \<and> fst (deleteVideoRequest exampleEnv exampleStore 2 ''000000000000000000000009'')
       = NotFound ''Video not found''
   \<and> castObjectId ''000000000000000000000007'' = Some 7
   \<and> findById exampleStore 7 = Some exampleVideo \<and> uploader exampleVideo \<noteq> 2
   \<and> snd (deleteVideoRequest exampleEnv exampleStore 2 ''000000000000000000000007'') = exampleStore
   \<and> fst (deleteVideoRequest exampleEnv exampleStore 2 ''000000000000000000000007'')
       = Forbidden ''Not authorized to delete this video''
   \<and> castObjectId ''nothex'' = None
   \<and> deleteVideoRequest exampleEnv exampleStore 2 ''nothex''
       = (ServerError ''Error deleting video'', exampleStore)"
proof -
  have n: "\<not> throws exampleEnv FindVideo" by (simp add: exampleEnv_def)
  have o: "uploader exampleVideo \<noteq> 2" by (simp add: exampleVideo_def)
  note t9 = delete_request_refused_leaves_store
      [of "''000000000000000000000009''" 9 exampleStore exampleEnv 2]
  note t7 = delete_request_refused_leaves_store
      [of "''000000000000000000000007''" 7 exampleStore exampleEnv 2]
  note tm = delete_request_refused_leaves_store [of "''nothex''" 0 exampleStore exampleEnv 2]
  note a9 = mp [OF conjunct1 [OF t9] conjI [OF cast_examples(1) findById_example_absent]]
  note a7 = mp [OF spec [OF conjunct1 [OF conjunct2 [OF t7]]]
      conjI [OF cast_examples(2) conjI [OF findById_example o]]]
  note am = mp [OF conjunct2 [OF conjunct2 [OF tm]] cast_examples(3)]
  show ?thesis
    by (intro conjI cast_examples findById_example_absent n findById_example o
          conjunct1 [OF a9] mp [OF conjunct2 [OF a9] n]
          conjunct1 [OF a7] mp [OF conjunct2 [OF a7] n] am)
qed

text \<open>
  Claim C7 as stated, status 404 for every id with no matching video, fails at the id
  \<open>nothex\<close>: no video carries it, and the answer is status 500.
\<close>

theorem delete_malformed_id_counterexample:
  "castObjectId ''nothex'' = None
   \<and> deleteVideoRequest exampleEnv exampleStore 2 ''nothex''
       = (ServerError ''Error deleting video'', exampleStore)
   \<and> fst (deleteVideoRequest exampleEnv exampleStore 2 ''nothex'') \<noteq> NotFound ''Video not found''"
  by (simp add: deleteVideoRequest_def cast_examples)

text \<open>
  Claim C8. The owner deletes a video; the store answers the lookup, the removal and the
  update of the owner's list. Whether or not the blob store's delete call throws, the
  answer is the success message, no video carries the id any more, and the id is gone from
  the owner's list. The blob store is called exactly when the video's URL contains
  \<open>cloudinary.com\<close>, with the stored identifier; when it is not called, or when the call
  throws, the blob store holds what it held.
\<close>

theorem owner_delete_completes_despite_blob_store:
  assumes "findById st i = Some v" "uploader v = u"
    and "\<not> throws env FindVideo" "\<not> throws env DeleteVideo" "\<not> throws env UpdateUser"
  shows "fst (deleteVideo env st u i) = OkMessage ''Video deleted successfully''
       \<and> findById (snd (deleteVideo env st u i)) i = None
       \<and> videoDocs (snd (deleteVideo env st u i)) = deleteDoc i (videoDocs st)
       \<and> userVideos (snd (deleteVideo env st u i)) u
           = map_option (filter (\<lambda>j. j \<noteq> i)) (userVideos st u)
       \<and> destroyCalls (snd (deleteVideo env st u i))
           = destroyCalls st
             @ (if js_includes (videoUrl v) ''cloudinary.com'' then [cloudinaryId v] else [])
       \<and> (throws env DestroyBlob \<or> \<not> js_includes (videoUrl v) ''cloudinary.com''
            \<longrightarrow> blobs (snd (deleteVideo env st u i)) = blobs st)"
  using assms
  by (auto simp: deleteVideo_def Let_def findById_def find_deleteDoc pullUserVideo_def
        destroyBlob_def split: option.splits)

theorem owner_delete_completes_despite_blob_store_witness:
  "findById exampleStore 7 = Some exampleVideo \<and> uploader exampleVideo = 3
   \<and> throws blobStoreDownEnv DestroyBlob
   \<and> fst (deleteVideo blobStoreDownEnv exampleStore 3 7) = OkMessage ''Video deleted successfully''
   \<and> videoDocs (snd (deleteVideo blobStoreDownEnv exampleStore 3 7)) = []
   \<and> userVideos (snd (deleteVideo blobStoreDownEnv exampleStore 3 7)) 3 = Some []
   \<and> destroyCalls (snd (deleteVideo blobStoreDownEnv exampleStore 3 7)) = [''clip'']
   \<and> blobs (snd (deleteVideo blobStoreDownEnv exampleStore 3 7)) = {''clip''}"
proof -
  have o: "uploader exampleVideo = 3" by (simp add: exampleVideo_def)
  have n: "\<not> throws blobStoreDownEnv FindVideo" "\<not> throws blobStoreDownEnv DeleteVideo"
    "\<not> throws blobStoreDownEnv UpdateUser"
    by (simp_all add: blobStoreDownEnv_def exampleEnv_def)
  have t: "throws blobStoreDownEnv DestroyBlob"
    by (simp add: blobStoreDownEnv_def exampleEnv_def)
  have m: "js_includes (videoUrl exampleVideo) ''cloudinary.com''"
    by (simp add: exampleVideo_def)
  have c: "cloudinaryId exampleVideo = ''clip''" by (simp add: exampleVideo_def)
  have s: "videoDocs exampleStore = [exampleVideo]" "userVideos exampleStore 3 = Some [7]"
    "destroyCalls exampleStore = []" "blobs exampleStore = {''clip''}"
    by (simp_all add: exampleStore_def)
  have v: "vid exampleVideo = 7" by (simp add: exampleVideo_def)
  show ?thesis
    using owner_delete_completes_despite_blob_store [OF findById_example o n] o t m c
      findById_example
    by (simp add: s deleteDoc_def v)
qed

end
